theory Spec2Isabelle
  imports Main
begin

section \<open>pdb2pqr/io.py: reading and writing structure and grid data\<close>

text \<open>
  A shallow embedding of the functions of \<^verbatim>\<open>src/pdb2pqr/io.py\<close>. Python strings are
  \<open>string\<close> (characters are code points below 256), Python lists are HOL lists, an
  exception is the \<open>Inl\<close> branch of a sum, and objects that the code mutates live in an
  explicit store.
\<close>

subsection \<open>Exceptions\<close>

text \<open>
  The exception classes the functions of this module can raise. \<open>ValueError\<close>,
  \<open>IOError\<close> and \<open>FileNotFoundError\<close> carry the message of the \<^verbatim>\<open>raise\<close>
  statement (for the builtins \<^verbatim>\<open>int()\<close> and \<^verbatim>\<open>float()\<close>: the rejected literal),
  \<open>NameError\<close> the name that is not bound.
\<close>

datatype py_error =
    IndexError
  | KeyError
  | TypeError
  | AttributeError
  | ValueError string
  | NameError string
  | IOError string
  | FileNotFoundError string

type_synonym 'a result = "py_error + 'a"

definition bind_res :: "'a result \<Rightarrow> ('a \<Rightarrow> 'b result) \<Rightarrow> 'b result" where
  "bind_res m f = (case m of Inl e \<Rightarrow> Inl e | Inr v \<Rightarrow> f v)"

text \<open>Evaluating a list of expressions from left to right; the first exception wins.\<close>

fun sequence_res :: "'a result list \<Rightarrow> 'a list result" where
  "sequence_res [] = Inr []"
| "sequence_res (m # ms) =
     (case m of
        Inl e \<Rightarrow> Inl e
      | Inr v \<Rightarrow> (case sequence_res ms of Inl e \<Rightarrow> Inl e | Inr vs \<Rightarrow> Inr (v # vs)))"

text \<open>\<^verbatim>\<open>xs[i]\<close> for a constant non-negative index.\<close>

definition index :: "'a list \<Rightarrow> nat \<Rightarrow> 'a result" where
  "index xs i = (if i < length xs then Inr (xs ! i) else Inl IndexError)"

subsection \<open>Strings\<close>

text \<open>
  \<^verbatim>\<open>str.isspace\<close> on one character: tab, line feed, vertical tab, form feed, carriage
  return, the four separators 28 to 31, the blank, and (above ASCII) 0x85 and 0xA0.
\<close>

definition is_space :: "char \<Rightarrow> bool" where
  "is_space c = ((of_char c :: nat) \<in> set [9, 10, 11, 12, 13, 28, 29, 30, 31, 32, 133, 160])"

text \<open>
  \<^verbatim>\<open>str.split()\<close> with no argument: the maximal runs of characters that are not
  whitespace, in order. \<open>split_from cur s\<close> scans \<open>s\<close> with the token \<open>cur\<close> open.
\<close>

fun split_from :: "string \<Rightarrow> string \<Rightarrow> string list" where
  "split_from cur [] = (if cur = [] then [] else [cur])"
| "split_from cur (c # cs) =
     (if is_space c
      then (if cur = [] then split_from [] cs else cur # split_from [] cs)
      else split_from (cur @ [c]) cs)"

definition py_split :: "string \<Rightarrow> string list" where
  "py_split s = split_from [] s"

text \<open>\<^verbatim>\<open>str.strip()\<close> with no argument.\<close>

definition py_strip :: "string \<Rightarrow> string" where
  "py_strip s = rev (dropWhile is_space (rev (dropWhile is_space s)))"

text \<open>\<^verbatim>\<open>sep.join(xs)\<close>.\<close>

fun join :: "string \<Rightarrow> string list \<Rightarrow> string" where
  "join sep [] = []"
| "join sep [x] = x"
| "join sep (x # y # ys) = x @ sep @ join sep (y # ys)"

text \<open>\<^verbatim>\<open>s.startswith(p)\<close>.\<close>

definition startswith :: "string \<Rightarrow> string \<Rightarrow> bool" where
  "startswith s p = (take (length p) s = p)"

subsection \<open>DuplicateFilter (lines 24 to 46)\<close>

text \<open>
  A log record, as far as the filter reads it: \<^verbatim>\<open>record.levelname\<close> and
  \<^verbatim>\<open>record.getMessage()\<close>. The state of a filter object is its \<^verbatim>\<open>Counter\<close>
  \<^verbatim>\<open>warn_count\<close> (a key that was never counted reads 0); \<open>logged\<close> collects the
  messages that the filter itself passes to \<^verbatim>\<open>_LOGGER.warning\<close>.
\<close>

record log_record =
  levelname :: string
  message :: string

record duplicate_filter =
  warn_count :: "string \<Rightarrow> nat"
  logged :: "string list"

definition duplicate_filter_init :: duplicate_filter where
  "duplicate_filter_init = \<lparr>warn_count = (\<lambda>_. 0), logged = []\<rparr>"

text \<open>The message of the notice at line 41.\<close>

definition suppress_notice :: "string \<Rightarrow> string" where
  "suppress_notice fwarn = ''Suppressing further \"'' @ fwarn @ ''\" messages''"

text \<open>
  The loop \<^verbatim>\<open>for fwarn in FILTER_WARNINGS\<close>: the first prefix that the message starts
  with decides, and the loop returns there. The constants \<^verbatim>\<open>FILTER_WARNINGS\<close> and
  \<^verbatim>\<open>FILTER_WARNINGS_LIMIT\<close> of \<^verbatim>\<open>pdb2pqr.config\<close> are parameters.
\<close>

fun filter_loop :: "int \<Rightarrow> string list \<Rightarrow> string \<Rightarrow> duplicate_filter \<Rightarrow> bool \<times> duplicate_filter" where
  "filter_loop limit [] msg self = (True, self)"
| "filter_loop limit (fwarn # rest) msg self =
     (if startswith msg fwarn then
        (let self' = self\<lparr>warn_count := (warn_count self)(fwarn := warn_count self fwarn + 1)\<rparr> in
         if int (warn_count self' fwarn) > limit then (False, self')
         else if int (warn_count self' fwarn) = limit then
           (False, self'\<lparr>logged := logged self' @ [suppress_notice fwarn]\<rparr>)
         else (True, self'))
      else filter_loop limit rest msg self)"

text \<open>The method \<^verbatim>\<open>filter\<close>: its result and the state of the filter after the call.\<close>

definition filter_record ::
  "int \<Rightarrow> string list \<Rightarrow> duplicate_filter \<Rightarrow> log_record \<Rightarrow> bool \<times> duplicate_filter" where
  "filter_record FILTER_WARNINGS_LIMIT FILTER_WARNINGS self record =
     (if levelname record = ''WARNING''
      then filter_loop FILTER_WARNINGS_LIMIT FILTER_WARNINGS (message record) self
      else (True, self))"

text \<open>
  Records and filter states to run the filter on: two watched prefixes, the second a
  prefix of the first, and a filter that has counted the first prefix \<open>n\<close> times.
\<close>

definition skipped_warning :: log_record where
  "skipped_warning =
     \<lparr>levelname = ''WARNING'', message = ''Skipped atom during water optimization: HOH''\<rparr>"

definition other_warning :: log_record where
  "other_warning = \<lparr>levelname = ''WARNING'', message = ''Missing atom CA''\<rparr>"

definition skipped_info :: log_record where
  "skipped_info =
     \<lparr>levelname = ''INFO'', message = ''Skipped atom during water optimization: HOH''\<rparr>"

definition watched_prefixes :: "string list" where
  "watched_prefixes = [''Skipped atom during water optimization'', ''Skipped atom'']"

definition seen :: "nat \<Rightarrow> duplicate_filter" where
  "seen n = \<lparr>warn_count = (\<lambda>_. 0)(''Skipped atom during water optimization'' := n), logged = []\<rparr>"

subsection \<open>generate_atom_site_columns (lines 734 to 820)\<close>

text \<open>The dictionary \<^verbatim>\<open>col_idx\<close>, in the order of its literal.\<close>

definition col_idx :: "(string \<times> nat) list" where
  "col_idx =
    [(''group_PDB'', 0), (''id'', 1), (''type_symbol'', 2),
     (''label_atom_id'', 19), (''label_alt_id'', 4), (''label_comp_id'', 5),
     (''label_asym_id'', 6), (''label_entity_id'', 7), (''label_seq_id'', 8),
     (''pdbx_PDB_ins_code'', 9),
     (''Cartn_x'', 10), (''Cartn_y'', 11), (''Cartn_z'', 12),
     (''occupancy'', 13), (''B_iso_or_equiv'', 14), (''pdbx_formal_charge'', 15),
     (''auth_seq_id'', 16), (''auth_comp_id'', 17), (''auth_asym_id'', 18),
     (''auth_atom_id'', 19),
     (''pdbx_PDB_model_num'', 20)]"

text \<open>
  The local list variables of the function, in the order in which the loop body appends
  to them, which is also the order of the returned tuple (the variable \<^verbatim>\<open>id_\<close> holds
  the column \<^verbatim>\<open>id\<close>).
\<close>

definition column_names :: "string list" where
  "column_names =
    [''group_PDB'', ''id'', ''type_symbol'', ''label_atom_id'', ''label_alt_id'',
     ''label_comp_id'', ''label_asym_id'', ''label_entity_id'', ''label_seq_id'',
     ''pdbx_PDB_ins_code'', ''Cartn_x'', ''Cartn_y'', ''Cartn_z'', ''occupancy'',
     ''B_iso_or_equiv'', ''pdbx_formal_charge'', ''auth_seq_id'', ''auth_comp_id'',
     ''auth_asym_id'', ''auth_atom_id'', ''pdbx_PDB_model_num'']"

text \<open>\<^verbatim>\<open>line[col_idx[name]]\<close>: a dictionary lookup, then a list index.\<close>

definition column_token :: "string list \<Rightarrow> string \<Rightarrow> string result" where
  "column_token line name =
     (case map_of col_idx name of
        None \<Rightarrow> Inl KeyError
      | Some i \<Rightarrow> index line i)"

text \<open>The twenty-one \<^verbatim>\<open>append\<close> calls of one loop iteration.\<close>

definition append_columns :: "string list list \<Rightarrow> string list \<Rightarrow> string list list result" where
  "append_columns cols line =
     bind_res (sequence_res (map (column_token line) column_names))
       (\<lambda>toks. Inr (map2 (\<lambda>col tok. col @ [tok]) cols toks))"

text \<open>The test \<^verbatim>\<open>len(line) in [23, 25]\<close> on the tokens of a line.\<close>

definition accepted :: "string \<Rightarrow> bool" where
  "accepted l = (length (py_split l) \<in> set [23, 25])"

fun atom_site_loop :: "string list list \<Rightarrow> string list \<Rightarrow> string list list result" where
  "atom_site_loop cols [] = Inr cols"
| "atom_site_loop cols (l # ls) =
     (if \<not> accepted l then atom_site_loop cols ls
      else bind_res (append_columns cols (py_split l)) (\<lambda>cols'. atom_site_loop cols' ls))"

text \<open>The returned tuple of lists, as the list of its components.\<close>

definition generate_atom_site_columns :: "string list \<Rightarrow> string list list result" where
  "generate_atom_site_columns pdb_lines =
     atom_site_loop (map (\<lambda>_. []) column_names) pdb_lines"

text \<open>The token position that each returned column reads, in the order of the tuple.\<close>

definition column_positions :: "nat list" where
  "column_positions =
     [0, 1, 2, 19, 4, 5, 6, 7, 8, 9, 10, 11, 12, 13, 14, 15, 16, 17, 18, 19, 20]"

text \<open>Two input lines: one of 23 tokens and one of 24.\<close>

definition line23 :: string where
  "line23 = ''ATOM 1 N N . MET A 1 1 ? 27.340 24.430 2.614 1.00 9.67 ? 1 MET A N 1 x y''"

definition line24 :: string where
  "line24 = ''ATOM 1 N N . MET A 1 1 ? 27.340 24.430 2.614 1.00 9.67 ? 1 MET A N 1 x y z''"

subsection \<open>Numbers as text\<close>

text \<open>
  \<^verbatim>\<open>int(s)\<close> on a string: surrounding whitespace is dropped, one sign is allowed, and
  the digits may be grouped by single underscores. \<open>int_digits prev acc s\<close> reads the
  digits of \<open>s\<close>; \<open>prev\<close> says that the character before was a digit.
\<close>

definition is_digit :: "char \<Rightarrow> bool" where
  "is_digit c = (48 \<le> (of_char c :: nat) \<and> (of_char c :: nat) \<le> 57)"

definition digit_value :: "char \<Rightarrow> nat" where
  "digit_value c = of_char c - 48"

fun int_digits :: "bool \<Rightarrow> nat \<Rightarrow> string \<Rightarrow> nat option" where
  "int_digits prev acc [] = (if prev then Some acc else None)"
| "int_digits prev acc (c # cs) =
     (if is_digit c then int_digits True (10 * acc + digit_value c) cs
      else if c = CHR ''_'' \<and> prev then int_digits False acc cs
      else None)"

definition py_int :: "string \<Rightarrow> int result" where
  "py_int s =
     (let t = py_strip s;
          r = (case t of
                 [] \<Rightarrow> None
               | c # cs \<Rightarrow>
                   if c = CHR ''-'' then map_option (\<lambda>n. - int n) (int_digits False 0 cs)
                   else if c = CHR ''+'' then map_option int (int_digits False 0 cs)
                   else map_option int (int_digits False 0 t))
      in case r of None \<Rightarrow> Inl (ValueError s) | Some i \<Rightarrow> Inr i)"

text \<open>\<^verbatim>\<open>str(i)\<close> of an integer, and the alignments \<^verbatim>\<open>>w\<close> and \<^verbatim>\<open><w\<close> of a format field.\<close>

definition digit_char :: "nat \<Rightarrow> char" where
  "digit_char d = char_of (48 + d)"

fun digits_of :: "nat \<Rightarrow> string" where
  "digits_of n = (if n < 10 then [digit_char n] else digits_of (n div 10) @ [digit_char (n mod 10)])"

declare digits_of.simps [simp del]

definition py_str_int :: "int \<Rightarrow> string" where
  "py_str_int i = (if i < 0 then CHR ''-'' # digits_of (nat (- i)) else digits_of (nat i))"

definition rjust :: "nat \<Rightarrow> string \<Rightarrow> string" where
  "rjust w s = replicate (w - length s) (CHR '' '') @ s"

definition ljust :: "nat \<Rightarrow> string \<Rightarrow> string" where
  "ljust w s = s @ replicate (w - length s) (CHR '' '')"

text \<open>
  The floating-point numbers of the host are not modelled: the type \<open>'f\<close> of floats is a
  parameter, and so are the four operations the module uses on them.
  \<^item> \<open>parse_float s\<close> is \<^verbatim>\<open>float(s)\<close>, \<open>None\<close> when it raises \<^verbatim>\<open>ValueError\<close>;
  \<^item> \<open>fixed n v\<close> is \<^verbatim>\<open>format(v, '.nf')\<close>;
  \<^item> \<open>sci_magnitude n v\<close> is \<^verbatim>\<open>format(v, '.nE')\<close> without its sign;
  \<^item> \<open>sign_minus v\<close> says whether the formatted number carries a minus sign.
\<close>

record 'f float_ops =
  parse_float :: "string \<Rightarrow> 'f option"
  fixed :: "nat \<Rightarrow> 'f \<Rightarrow> string"
  sci_magnitude :: "nat \<Rightarrow> 'f \<Rightarrow> string"
  sign_minus :: "'f \<Rightarrow> bool"

definition py_float :: "'f float_ops \<Rightarrow> string \<Rightarrow> 'f result" where
  "py_float ops s = (case parse_float ops s of None \<Rightarrow> Inl (ValueError s) | Some v \<Rightarrow> Inr v)"

text \<open>
  The floats of the one-digit literals \<^verbatim>\<open>0\<close> to \<^verbatim>\<open>9\<close>, each represented by its
  literal: \<^verbatim>\<open>format(float('7'), '.6f')\<close> is \<^verbatim>\<open>7.000000\<close> and
  \<^verbatim>\<open>format(float('7'), '.5E')\<close> is \<^verbatim>\<open>7.00000E+00\<close>. Every other literal is left
  out (\<open>None\<close>).
\<close>

definition digit_floats :: "string float_ops" where
  "digit_floats =
     \<lparr>parse_float = (\<lambda>s. if length s = 1 \<and> is_digit (hd s) then Some s else None),
      fixed = (\<lambda>n v. v @ ''.'' @ replicate n (CHR ''0'')),
      sci_magnitude = (\<lambda>n v. v @ ''.'' @ replicate n (CHR ''0'') @ ''E+00''),
      sign_minus = (\<lambda>v. False)\<rparr>"

subsection \<open>Atoms\<close>

text \<open>
  Modelled from the spec: the classes \<^verbatim>\<open>Atom\<close> and \<^verbatim>\<open>Residue\<close> of
  \<^verbatim>\<open>pdb2pqr.structures\<close> are not part of this module. The record has the fields of
  the data model (AtomRecord, ResidueRef) that this module reads or writes.
\<close>

record residue_ref =
  res_name :: string
  res_seq :: int

record 'f atom =
  serial :: int
  atom_name :: string
  chain_id :: string
  residue :: residue_ref
  atom_x :: 'f
  atom_y :: 'f
  atom_z :: 'f
  atom_charge :: 'f

subsection \<open>read_dx (lines 563 to 609)\<close>

text \<open>
  The dictionary \<^verbatim>\<open>dx_dict\<close> with its four keys. A spacing and the corner are lists
  of floats, and the tuple of grid point counts is the list of its components.
\<close>

record 'f dx_dict =
  grid_spacing :: "'f list list"
  grid_values :: "'f list"
  number_of_grid_points :: "int list option"
  lower_left_corner :: "'f list option"

text \<open>
  One iteration of \<^verbatim>\<open>for line in dx_file\<close>. \<^verbatim>\<open>words[0]\<close> is read first, for every
  line.
\<close>

definition read_dx_line :: "'f float_ops \<Rightarrow> 'f dx_dict \<Rightarrow> string \<Rightarrow> 'f dx_dict result" where
  "read_dx_line ops dx line =
     (let words = map py_strip (py_split line) in
      bind_res (index words 0) (\<lambda>w0.
        if w0 \<in> set [''#'', ''attribute'', ''component''] then Inr dx
        else if w0 = ''object'' then
          bind_res (index words 1) (\<lambda>w1.
            if w1 = ''1'' then
              bind_res (sequence_res [bind_res (index words 5) py_int,
                                      bind_res (index words 6) py_int,
                                      bind_res (index words 7) py_int])
                (\<lambda>dims. Inr (dx\<lparr>number_of_grid_points := Some dims\<rparr>))
            else Inr dx)
        else if w0 = ''origin'' then
          bind_res (sequence_res [bind_res (index words 1) (py_float ops),
                                  bind_res (index words 2) (py_float ops),
                                  bind_res (index words 3) (py_float ops)])
            (\<lambda>corner. Inr (dx\<lparr>lower_left_corner := Some corner\<rparr>))
        else if w0 = ''delta'' then
          bind_res (sequence_res [bind_res (index words 1) (py_float ops),
                                  bind_res (index words 2) (py_float ops),
                                  bind_res (index words 3) (py_float ops)])
            (\<lambda>spacing. Inr (dx\<lparr>grid_spacing := grid_spacing dx @ [spacing]\<rparr>))
        else
          bind_res (sequence_res (map (py_float ops) words))
            (\<lambda>vs. Inr (dx\<lparr>grid_values := grid_values dx @ vs\<rparr>))))"

fun read_dx_loop :: "'f float_ops \<Rightarrow> 'f dx_dict \<Rightarrow> string list \<Rightarrow> 'f dx_dict result" where
  "read_dx_loop ops dx [] = Inr dx"
| "read_dx_loop ops dx (line # rest) =
     bind_res (read_dx_line ops dx line) (\<lambda>dx'. read_dx_loop ops dx' rest)"

definition read_dx :: "'f float_ops \<Rightarrow> string list \<Rightarrow> 'f dx_dict result" where
  "read_dx ops dx_file =
     read_dx_loop ops
       \<lparr>grid_spacing = [], grid_values = [], number_of_grid_points = None,
        lower_left_corner = None\<rparr> dx_file"

text \<open>
  The lines of a grid text, told apart by their tokens as the loop of \<open>read_dx\<close> tells
  them apart: the \<^verbatim>\<open>object 1\<close> line whose tokens 5 to 7 are 2 2 2 (the other tokens are
  free), the \<^verbatim>\<open>origin 0 0 0\<close> line, a \<^verbatim>\<open>delta\<close> line with three tokens that \<^verbatim>\<open>float()\<close>
  accepts, a line of scalar tokens that \<^verbatim>\<open>float()\<close> accepts, and a line that the loop
  passes over (a comment, an attribute, a component, or another object).
  \<open>float_of ops w\<close> is the float of an accepted token.
\<close>

definition dx_words :: "string \<Rightarrow> string list" where
  "dx_words line = map py_strip (py_split line)"

definition counts_222_line :: "string \<Rightarrow> bool" where
  "counts_222_line line =
     (take 2 (dx_words line) = [''object'', ''1'']
      \<and> take 3 (drop 5 (dx_words line)) = [''2'', ''2'', ''2''])"

definition origin_000_line :: "string \<Rightarrow> bool" where
  "origin_000_line line = (take 4 (dx_words line) = [''origin'', ''0'', ''0'', ''0''])"

definition delta_line :: "'f float_ops \<Rightarrow> string \<Rightarrow> bool" where
  "delta_line ops line =
     (take 1 (dx_words line) = [''delta'']
      \<and> length (dx_words line) \<ge> 4
      \<and> list_all (\<lambda>w. parse_float ops w \<noteq> None) (take 3 (tl (dx_words line))))"

definition scalar_line :: "'f float_ops \<Rightarrow> string \<Rightarrow> bool" where
  "scalar_line ops line =
     (dx_words line \<noteq> []
      \<and> hd (dx_words line) \<notin>
            set [''#'', ''attribute'', ''component'', ''object'', ''origin'', ''delta'']
      \<and> list_all (\<lambda>w. parse_float ops w \<noteq> None) (dx_words line))"

definition skipped_line :: "string \<Rightarrow> bool" where
  "skipped_line line =
     (dx_words line \<noteq> []
      \<and> (hd (dx_words line) \<in> set [''#'', ''attribute'', ''component'']
         \<or> (take 1 (dx_words line) = [''object''] \<and> length (dx_words line) \<ge> 2
             \<and> dx_words line ! 1 \<noteq> ''1'')))"

definition float_of :: "'f float_ops \<Rightarrow> string \<Rightarrow> 'f" where
  "float_of ops w = the (parse_float ops w)"

text \<open>A small grid file: the counts 2 2 2, an origin, three deltas and eight values.\<close>

definition minimal_dx :: "string list" where
  "minimal_dx =
     [''object 1 class gridpositions counts 2 2 2'',
      ''origin 0 0 0'',
      ''delta 1 0 0'',
      ''delta 0 1 0'',
      ''delta 0 0 1'',
      ''3 1 4'',
      ''1 5 9'',
      ''2 6'']"


subsection \<open>write_cube (lines 612 to 659)\<close>

text \<open>
  The file is the list of the strings passed to \<^verbatim>\<open>cube_file.write\<close>, one entry per
  call, together with the exception that ended the call, if any: what was written
  before an exception stays written.
\<close>

type_synonym out = "string list \<times> py_error option"

definition then_out :: "out \<Rightarrow> out \<Rightarrow> out" where
  "then_out a b = (case snd a of Some e \<Rightarrow> a | None \<Rightarrow> (fst a @ fst b, snd b))"

definition out_seq :: "out list \<Rightarrow> out" where
  "out_seq outs = foldr then_out outs ([], None)"

definition write_res :: "string result \<Rightarrow> out" where
  "write_res r = (case r of Inl e \<Rightarrow> ([], Some e) | Inr s \<Rightarrow> ([s], None))"

text \<open>\<^verbatim>\<open>x[i]\<close> where \<^verbatim>\<open>x\<close> may be \<^verbatim>\<open>None\<close>.\<close>

definition subscript :: "'a list option \<Rightarrow> nat \<Rightarrow> 'a result" where
  "subscript xs i = (case xs of None \<Rightarrow> Inl TypeError | Some l \<Rightarrow> index l i)"

definition origin_line :: "'f float_ops \<Rightarrow> nat \<Rightarrow> 'f list option \<Rightarrow> string result" where
  "origin_line ops num_atoms origin =
     bind_res (subscript origin 0) (\<lambda>o0.
     bind_res (subscript origin 1) (\<lambda>o1.
     bind_res (subscript origin 2) (\<lambda>o2.
       Inr (rjust 4 (py_str_int (int num_atoms)) @ '' '' @ rjust 11 (fixed ops 6 o0) @ '' ''
            @ rjust 11 (fixed ops 6 o1) @ '' '' @ rjust 11 (fixed ops 6 o2) @ ''\<newline>''))))"

definition axis_line :: "'f float_ops \<Rightarrow> int list option \<Rightarrow> 'f list list \<Rightarrow> nat \<Rightarrow> string result" where
  "axis_line ops num_points spacings i =
     bind_res (subscript num_points i) (\<lambda>n.
     bind_res (index spacings i) (\<lambda>s.
     bind_res (index s 0) (\<lambda>s0.
     bind_res (index s 1) (\<lambda>s1.
     bind_res (index s 2) (\<lambda>s2.
       Inr (rjust 4 (py_str_int (- n)) @ '' '' @ rjust 11 (fixed ops 6 s0) @ '' ''
            @ rjust 11 (fixed ops 6 s1) @ '' '' @ rjust 11 (fixed ops 6 s2) @ ''\<newline>''))))))"

definition atom_line :: "'f float_ops \<Rightarrow> 'f atom \<Rightarrow> string" where
  "atom_line ops a =
     rjust 4 (py_str_int (serial a)) @ '' '' @ rjust 11 (fixed ops 6 (atom_charge a)) @ '' ''
     @ rjust 11 (fixed ops 6 (atom_x a)) @ '' '' @ rjust 11 (fixed ops 6 (atom_y a)) @ '' ''
     @ rjust 11 (fixed ops 6 (atom_z a)) @ ''\<newline>''"

text \<open>
  The format \<^verbatim>\<open>< 13.5E\<close>: five decimals in scientific notation, a blank in the place
  of the sign of a number that has no minus sign, left-aligned in thirteen columns.
\<close>

definition value_field :: "'f float_ops \<Rightarrow> 'f \<Rightarrow> string" where
  "value_field ops v =
     ljust 13 ((if sign_minus ops v then ''-'' else '' '') @ sci_magnitude ops 5 v)"

text \<open>The loop \<^verbatim>\<open>for i in range(0, len(values), 6)\<close>, from the index \<open>i\<close> on.\<close>

function values_loop :: "'f float_ops \<Rightarrow> 'f list \<Rightarrow> nat \<Rightarrow> string list" where
  "values_loop ops vals i =
     (if i < length vals then
        (if i + 6 < length vals
         then (join '' '' (map (value_field ops) (take 6 (drop i vals))) @ ''\<newline>'')
                # values_loop ops vals (i + 6)
         else join '' '' (map (value_field ops) (drop i vals)) # values_loop ops vals (i + 6))
      else [])"
  by pat_completeness auto
termination
  by (relation "measure (\<lambda>(ops, vals, i). length vals - i)") auto

declare values_loop.simps [simp del]

definition write_cube :: "'f float_ops \<Rightarrow> 'f dx_dict \<Rightarrow> 'f atom list \<Rightarrow> string \<Rightarrow> out" where
  "write_cube ops data_dict atom_list comment =
     out_seq
       ([([comment @ ''\<newline>''], None),
         ([''OUTER LOOP: X, MIDDLE LOOP: Y, INNER LOOP: Z\<newline>''], None),
         write_res (origin_line ops (length atom_list) (lower_left_corner data_dict))]
        @ map (\<lambda>i. write_res (axis_line ops (number_of_grid_points data_dict)
                                  (grid_spacing data_dict) i)) [0..<3]
        @ map (\<lambda>a. ([atom_line ops a], None)) atom_list
        @ [(values_loop ops (grid_values data_dict) 0, None)])"

text \<open>The dictionary that \<open>read_dx\<close> builds from \<open>minimal_dx\<close> over \<open>digit_floats\<close>.\<close>

definition eight_values :: "string dx_dict" where
  "eight_values =
     \<lparr>grid_spacing = [[''1'', ''0'', ''0''], [''0'', ''1'', ''0''], [''0'', ''0'', ''1'']],
      grid_values = [''3'', ''1'', ''4'', ''1'', ''5'', ''9'', ''2'', ''6''],
      number_of_grid_points = Some [2, 2, 2],
      lower_left_corner = Some [''0'', ''0'', ''0'']\<rparr>"

subsection \<open>print_biomolecule_atoms (lines 49 to 78)\<close>

text \<open>
  The function assigns to \<^verbatim>\<open>atom.serial\<close> of the objects in its argument list, so the
  atoms live in a store, addressed by object identity, and \<^verbatim>\<open>atomlist\<close> is a list of
  addresses (one object may stand in the list more than once). The methods
  \<^verbatim>\<open>get_pdb_string\<close>, \<^verbatim>\<open>get_cif_string\<close> and \<^verbatim>\<open>get_pqr_string\<close> of the class
  \<^verbatim>\<open>Atom\<close> are parameters: any functions of the atom as it is when the line is
  rendered.
\<close>

type_synonym addr = nat

type_synonym 'f store = "addr \<Rightarrow> 'f atom"

record 'f renderers =
  get_pdb_string :: "'f atom \<Rightarrow> string"
  get_cif_string :: "'f atom \<Rightarrow> string"
  get_pqr_string :: "bool \<Rightarrow> 'f atom \<Rightarrow> string"

text \<open>The line appended for one atom, by the flags (lines 70 to 75).\<close>

definition atom_text :: "'f renderers \<Rightarrow> bool \<Rightarrow> bool \<Rightarrow> bool \<Rightarrow> 'f atom \<Rightarrow> string" where
  "atom_text r chainflag pdbfile ciffile atom =
     (if pdbfile then get_pdb_string r atom @ ''\<newline>''
      else if ciffile then get_cif_string r atom @ ''\<newline>''
      else get_pqr_string r chainflag atom @ ''\<newline>'')"

text \<open>
  One iteration of the loop over \<^verbatim>\<open>enumerate(atomlist)\<close>, on the state of the local
  variables \<^verbatim>\<open>text\<close> and \<^verbatim>\<open>currentchain_id\<close> and of the store. The chain
  identifier of an atom is a string (data model of the spec), so
  \<^verbatim>\<open>currentchain_id\<close> is \<^verbatim>\<open>None\<close> before the first atom only.
\<close>

definition atom_step ::
  "'f renderers \<Rightarrow> bool \<Rightarrow> bool \<Rightarrow> bool \<Rightarrow> nat \<Rightarrow> addr
     \<Rightarrow> string list \<times> string option \<times> 'f store \<Rightarrow> string list \<times> string option \<times> 'f store" where
  "atom_step r chainflag pdbfile ciffile iatom atom st =
     (case st of (text, currentchain_id, h) \<Rightarrow>
        let (currentchain_id', text') =
              (case currentchain_id of
                 None \<Rightarrow> (Some (chain_id (h atom)), text)
               | Some c \<Rightarrow>
                   if chain_id (h atom) \<noteq> c
                   then (Some (chain_id (h atom)), text @ [''TER\<newline>''])
                   else (currentchain_id, text));
            h' = h(atom := (h atom)\<lparr>serial := int iatom + 1\<rparr>)
        in (text' @ [atom_text r chainflag pdbfile ciffile (h' atom)], currentchain_id', h'))"

fun atoms_loop ::
  "'f renderers \<Rightarrow> bool \<Rightarrow> bool \<Rightarrow> bool \<Rightarrow> nat \<Rightarrow> addr list
     \<Rightarrow> string list \<times> string option \<times> 'f store \<Rightarrow> string list \<times> string option \<times> 'f store" where
  "atoms_loop r chainflag pdbfile ciffile iatom [] st = st"
| "atoms_loop r chainflag pdbfile ciffile iatom (atom # rest) st =
     atoms_loop r chainflag pdbfile ciffile (Suc iatom) rest
       (atom_step r chainflag pdbfile ciffile iatom atom st)"

text \<open>
  The call returns the list \<^verbatim>\<open>text\<close> and leaves the store as the loop made it. With
  both flags set it raises before it touches an atom.
\<close>

definition print_biomolecule_atoms ::
  "'f renderers \<Rightarrow> 'f store \<Rightarrow> addr list \<Rightarrow> bool \<Rightarrow> bool \<Rightarrow> bool
     \<Rightarrow> (string list \<times> 'f store) result" where
  "print_biomolecule_atoms r h atomlist chainflag pdbfile ciffile =
     (if pdbfile \<and> ciffile
      then Inl (ValueError ''Cannot be both a pdb and cif file. Pick one.'')
      else (case atoms_loop r chainflag pdbfile ciffile 0 atomlist ([], None, h) of
              (text, currentchain_id, h') \<Rightarrow>
                Inr (if \<not> ciffile then text @ [''TER\<newline>END''] else text, h')))"

text \<open>
  For the statements below. \<open>same_but_serial h h'\<close>: the stores agree on every field
  but \<^verbatim>\<open>serial\<close>. \<open>body_from\<close> is the text the loop appends when it starts at index
  \<open>k\<close> after an atom of chain \<open>prev\<close>, read off the store \<open>h\<close> of the call, and
  \<open>body_entry\<close> is what it appends for the atom at position \<open>i\<close>.
\<close>

definition same_but_serial :: "'f store \<Rightarrow> 'f store \<Rightarrow> bool" where
  "same_but_serial h h' = (\<forall>a. (h' a)\<lparr>serial := 0\<rparr> = (h a)\<lparr>serial := 0\<rparr>)"

fun body_from :: "('f atom \<Rightarrow> string) \<Rightarrow> 'f store \<Rightarrow> string option \<Rightarrow> nat \<Rightarrow> addr list \<Rightarrow> string list" where
  "body_from rnd h prev k [] = []"
| "body_from rnd h prev k (a # rest) =
     (if prev \<noteq> None \<and> prev \<noteq> Some (chain_id (h a)) then [''TER\<newline>''] else [])
     @ [rnd ((h a)\<lparr>serial := int k + 1\<rparr>)]
     @ body_from rnd h (Some (chain_id (h a))) (Suc k) rest"

definition body_entry ::
  "('f atom \<Rightarrow> string) \<Rightarrow> 'f store \<Rightarrow> string option \<Rightarrow> nat \<Rightarrow> addr list \<Rightarrow> nat \<Rightarrow> string list" where
  "body_entry rnd h prev k atoms i =
     (if (i = 0 \<and> prev \<noteq> None \<and> prev \<noteq> Some (chain_id (h (atoms ! 0))))
          \<or> (0 < i \<and> chain_id (h (atoms ! i)) \<noteq> chain_id (h (atoms ! (i - 1))))
      then [''TER\<newline>''] else [])
     @ [rnd ((h (atoms ! i))\<lparr>serial := int (k + i) + 1\<rparr>)]"

text \<open>
  Three atoms of the chains A, A and B with the serials 7, 7 and 3, and renderers that
  print the serial, the name and the chain of an atom.
\<close>

definition atom_N :: "string atom" where
  "atom_N = \<lparr>serial = 7, atom_name = ''N'', chain_id = ''A'',
             residue = \<lparr>res_name = ''MET'', res_seq = 1\<rparr>,
             atom_x = ''1'', atom_y = ''2'', atom_z = ''3'', atom_charge = ''0''\<rparr>"

definition three_atoms :: "string store" where
  "three_atoms a =
     (if a = 0 then atom_N
      else if a = 1 then atom_N\<lparr>atom_name := ''CA''\<rparr>
      else atom_N\<lparr>serial := 3, atom_name := ''O'', chain_id := ''B''\<rparr>)"

definition plain_renderers :: "string renderers" where
  "plain_renderers =
     \<lparr>get_pdb_string = (\<lambda>a. ''ATOM '' @ py_str_int (serial a) @ '' '' @ atom_name a @ '' '' @ chain_id a),
      get_cif_string = (\<lambda>a. ''ATOM '' @ py_str_int (serial a) @ '' '' @ atom_name a @ '' '' @ chain_id a),
      get_pqr_string = (\<lambda>chainflag a. ''ATOM '' @ py_str_int (serial a) @ '' '' @ atom_name a
                          @ (if chainflag then '' '' @ chain_id a else []))\<rparr>"

subsection \<open>test_for_file (lines 353 to 382)\<close>

text \<open>
  What the function reads from outside: \<^verbatim>\<open>sys.path\<close>, the working directory, the
  paths of \<^verbatim>\<open>pathlib\<close> (an abstract type \<open>'p\<close> with the constructor \<^verbatim>\<open>Path(s)\<close>,
  \<^verbatim>\<open>joinpath\<close>, the operator \<^verbatim>\<open>/\<close> and \<^verbatim>\<open>is_file\<close>), the methods \<^verbatim>\<open>upper\<close> and
  \<^verbatim>\<open>lower\<close> of strings, and the constant \<^verbatim>\<open>FORCE_FIELDS\<close> of \<^verbatim>\<open>pdb2pqr.config\<close>.
  The field \<open>cwd\<close> is the outcome of the call \<^verbatim>\<open>Path.cwd()\<close>: the path of the working
  directory, or the exception of the call, which is \<^verbatim>\<open>FileNotFoundError\<close> when the
  working directory no longer exists.
\<close>

record 'p file_env =
  sys_path :: "string list"
  cwd :: "'p result"
  path_of :: "string \<Rightarrow> 'p"
  joinpath :: "'p \<Rightarrow> string list \<Rightarrow> 'p"
  path_div :: "'p \<Rightarrow> string \<Rightarrow> 'p"
  is_file :: "'p \<Rightarrow> bool"
  str_upper :: "string \<Rightarrow> string"
  str_lower :: "string \<Rightarrow> string"
  FORCE_FIELDS :: "string list"

text \<open>The function returns the string \<^verbatim>\<open>""\<close> or a path object.\<close>

datatype 'p str_or_path = Str string | PathObj 'p

text \<open>
  The local lists of the function, and the paths that the three nested loops test, in
  the order in which they test them. The parameter \<^verbatim>\<open>type_\<close> is written \<open>ftype\<close>.
  The list \<^verbatim>\<open>test_dirs\<close> (lines 368 to 370) is built from \<^verbatim>\<open>sys_path + [Path.cwd()]\<close>:
  the call \<^verbatim>\<open>Path.cwd()\<close> is made once, before the comprehension runs, and its
  exception leaves the function.
\<close>

definition test_names :: "'p file_env \<Rightarrow> string \<Rightarrow> string list" where
  "test_names env name = [name, str_upper env name, str_lower env name]"

definition test_suffixes :: "'p file_env \<Rightarrow> string \<Rightarrow> string list" where
  "test_suffixes env ftype = ['''', ''.'' @ str_upper env ftype, ''.'' @ str_lower env ftype]"

definition test_dirs :: "'p file_env \<Rightarrow> 'p list result" where
  "test_dirs env =
     bind_res (cwd env) (\<lambda>working_dir.
       Inr (map (\<lambda>p. joinpath env p [''pdb2pqr'', ''dat''])
                (map (path_of env) (sys_path env) @ [working_dir])))"

definition test_paths :: "'p file_env \<Rightarrow> 'p list \<Rightarrow> string \<Rightarrow> string \<Rightarrow> 'p list" where
  "test_paths env dirs name ftype =
     concat (map (\<lambda>test_dir.
       concat (map (\<lambda>test_name.
         map (\<lambda>test_suffix. path_div env test_dir (test_name @ test_suffix))
             (test_suffixes env ftype))
         (test_names env name)))
       dirs)"

text \<open>
  Both arguments may be \<^verbatim>\<open>None\<close>. The test on \<^verbatim>\<open>name\<close> comes first; after it,
  \<^verbatim>\<open>type_.upper()\<close> raises \<^verbatim>\<open>AttributeError\<close> on \<^verbatim>\<open>None\<close> (line 367), then
  \<^verbatim>\<open>test_dirs\<close> is built (line 369), and only then the loops run. The loops return the
  first path that is a file; the error message names \<^verbatim>\<open>name\<close> in upper case when its
  lower case is a known force field (lines 371 and 372).
\<close>

definition test_for_file ::
  "'p file_env \<Rightarrow> string option \<Rightarrow> string option \<Rightarrow> 'p str_or_path result" where
  "test_for_file env name ftype =
     (case name of
        None \<Rightarrow> Inr (Str '''')
      | Some nm \<Rightarrow>
          (case ftype of
             None \<Rightarrow> Inl AttributeError
           | Some ty \<Rightarrow>
               bind_res (test_dirs env) (\<lambda>dirs.
                 case find (is_file env) (test_paths env dirs nm ty) of
                   Some test_path \<Rightarrow> Inr (PathObj test_path)
                 | None \<Rightarrow>
                     Inl (FileNotFoundError
                           (''Unable to find '' @ ty @ '' file for ''
                            @ (if str_lower env nm \<in> set (FORCE_FIELDS env)
                               then str_upper env nm else nm))))))"

text \<open>
  ASCII case conversion, and two file systems with the force field names of the
  program: one without files, and one where the file \<^verbatim>\<open>PARSE.DAT\<close> is installed under
  the directory of \<^verbatim>\<open>sys.path\<close> and the working directory of the process has been
  removed.
\<close>

definition ascii_upper :: "string \<Rightarrow> string" where
  "ascii_upper s =
     map (\<lambda>c. if 97 \<le> (of_char c :: nat) \<and> (of_char c :: nat) \<le> 122
               then char_of ((of_char c :: nat) - 32) else c) s"

definition ascii_lower :: "string \<Rightarrow> string" where
  "ascii_lower s =
     map (\<lambda>c. if 65 \<le> (of_char c :: nat) \<and> (of_char c :: nat) \<le> 90
               then char_of ((of_char c :: nat) + 32) else c) s"

definition no_files :: "string file_env" where
  "no_files =
     \<lparr>sys_path = [''/usr/lib/python3''], cwd = Inr ''/home/user'',
      path_of = (\<lambda>s. s),
      joinpath = (\<lambda>p parts. join ''/'' (p # parts)),
      path_div = (\<lambda>p s. p @ ''/'' @ s),
      is_file = (\<lambda>p. False),
      str_upper = ascii_upper, str_lower = ascii_lower,
      FORCE_FIELDS = [''amber'', ''charmm'', ''parse'', ''tyl06'', ''peoepb'', ''swanson'']\<rparr>"

definition cwd_removed :: "string file_env" where
  "cwd_removed =
     \<lparr>sys_path = [''/usr/lib/python3''],
      cwd = Inl (FileNotFoundError ''[Errno 2] No such file or directory''),
      path_of = (\<lambda>s. s),
      joinpath = (\<lambda>p parts. join ''/'' (p # parts)),
      path_div = (\<lambda>p s. p @ ''/'' @ s),
      is_file = (\<lambda>p. p = ''/usr/lib/python3/pdb2pqr/dat/PARSE.DAT''),
      str_upper = ascii_upper, str_lower = ascii_lower,
      FORCE_FIELDS = [''amber'', ''charmm'', ''parse'', ''tyl06'', ''peoepb'', ''swanson'']\<rparr>"

subsection \<open>get_pdb_file (lines 421 to 446)\<close>

text \<open>
  The names bound in the namespace of the module: by its import statements (lines 2 to
  18, in order) and by its own assignments, classes and functions. A name that a
  function reads and that is neither local nor bound here nor a builtin raises
  \<^verbatim>\<open>NameError\<close> when the function runs.
\<close>

definition module_imports :: "string list" where
  "module_imports =
     [''logging'', ''io'', ''Counter'', ''Path'', ''sys_path'', ''gemmi'', ''psize'',
      ''inputgen'', ''cif'', ''pdb'', ''defns'', ''Atom'', ''FORCE_FIELDS'', ''TITLE_STR'',
      ''FILTER_WARNINGS_LIMIT'', ''FILTER_WARNINGS'', ''AA_DEF_PATH'', ''NA_DEF_PATH'',
      ''PATCH_DEF_PATH'']"

definition module_definitions :: "string list" where
  "module_definitions =
     [''_LOGGER'', ''DuplicateFilter'', ''print_biomolecule_atoms'', ''get_old_header'',
      ''print_pqr_header'', ''print_pqr_header_cif'', ''dump_apbs'', ''test_for_file'',
      ''test_names_file'', ''test_dat_file'', ''test_xml_file'', ''get_pdb_file'',
      ''get_molecule'', ''get_definitions'', ''setup_logger'', ''read_pqr'', ''read_qcd'',
      ''read_dx'', ''write_cube'', ''print_pqr'', ''print_pdb'',
      ''generate_atom_site_columns'', ''print_cif'']"

definition module_globals :: "string list" where
  "module_globals = module_imports @ module_definitions"

text \<open>
  The outside world of the function: \<^verbatim>\<open>Path(name)\<close>, \<^verbatim>\<open>is_file\<close>, \<^verbatim>\<open>stem\<close>, the
  text behind \<^verbatim>\<open>open(path)\<close>, and what an HTTP request to a URL answers (the status
  code and the body).
\<close>

record 'p fetch_env =
  fetch_path_of :: "string \<Rightarrow> 'p"
  fetch_is_file :: "'p \<Rightarrow> bool"
  fetch_stem :: "'p \<Rightarrow> string"
  fetch_open :: "'p \<Rightarrow> string"
  requests_get :: "string \<Rightarrow> int \<times> string"

text \<open>
  The body of the function in a module namespace \<open>globals\<close>. The result is the text of
  the file-like object that the call returns, or its exception, together with the list
  of the URLs that were requested. The f-string \<^verbatim>\<open>url_path\<close> is built before the name
  \<^verbatim>\<open>requests\<close> is looked up.
\<close>

definition get_pdb_file_in ::
  "string list \<Rightarrow> 'p fetch_env \<Rightarrow> string \<Rightarrow> string result \<times> string list" where
  "get_pdb_file_in globals env name =
     (let path = fetch_path_of env name in
      if fetch_is_file env path then (Inr (fetch_open env path), [])
      else
        (let url_path = ''https://files.rcsb.org/download/'' @ fetch_stem env path @ ''.pdb'' in
         if ''requests'' \<notin> set globals then (Inl (NameError ''requests''), [])
         else
           (case requests_get env url_path of
              (status_code, body) \<Rightarrow>
                if status_code \<noteq> 200
                then (Inl (IOError (''Got code '' @ py_str_int status_code
                                    @ '' while retrieving '' @ url_path)), [url_path])
                else (Inr body, [url_path]))))"

text \<open>The function of this module: the body in the namespace of the module.\<close>

definition get_pdb_file :: "'p fetch_env \<Rightarrow> string \<Rightarrow> string result \<times> string list" where
  "get_pdb_file env name = get_pdb_file_in module_globals env name"

text \<open>A world where no name is a file and every request is answered with 404.\<close>

definition offline :: "string fetch_env" where
  "offline =
     \<lparr>fetch_path_of = (\<lambda>s. s), fetch_is_file = (\<lambda>p. False), fetch_stem = (\<lambda>p. p),
      fetch_open = (\<lambda>p. []), requests_get = (\<lambda>url. (404, ''Not Found''))\<rparr>"

subsection \<open>print_pqr_header (lines 81 to 217)\<close>

text \<open>
  A block object of the module \<^verbatim>\<open>pdb\<close>, as far as \<^verbatim>\<open>get_old_header\<close> reads it: the
  name of its class and its \<^verbatim>\<open>str\<close>. A residue of \<^verbatim>\<open>reslist\<close>: its \<^verbatim>\<open>str\<close> and its
  charge.
\<close>

record pdb_record =
  record_class :: string
  record_str :: string

record 'f charged_residue =
  residue_str :: string
  residue_charge :: 'f

definition header_types :: "string list" where
  "header_types =
     [''HEADER'', ''TITLE'', ''COMPND'', ''SOURCE'', ''KEYWDS'', ''EXPDTA'', ''AUTHOR'',
      ''REVDAT'', ''JRNL'', ''REMARK'', ''SPRSDE'', ''NUMMDL'']"

definition get_old_header :: "pdb_record list \<Rightarrow> string" where
  "get_old_header pdblist =
     concat (map (\<lambda>pdb_obj. record_str pdb_obj @ ''\<newline>'')
                 (takeWhile (\<lambda>pdb_obj. record_class pdb_obj \<in> set header_types) pdblist))"

text \<open>
  The first statements of \<^verbatim>\<open>print_pqr_header\<close> (lines 148 to 158): the banner, the
  force field and, if \<^verbatim>\<open>ffout\<close> is given, the naming scheme.
\<close>

definition banner_section :: "string \<Rightarrow> string \<Rightarrow> string option \<Rightarrow> string" where
  "banner_section TITLE_STR force_field ffout =
     join ''\<newline>''
       [''REMARK   1 PQR file generated by PDB2PQR'',
        ''REMARK   1 '' @ TITLE_STR,
        ''REMARK   1'',
        ''REMARK   1 Forcefield Used: '' @ force_field,
        '''']
     @ (case ffout of
          None \<Rightarrow> []
        | Some scheme \<Rightarrow> ''REMARK   1 Naming Scheme Used: '' @ scheme @ ''\<newline>'')"

text \<open>The sections of lines 169 to 192 and of lines 193 to 204.\<close>

definition omitted_atoms_section :: "'f atom list \<Rightarrow> string" where
  "omitted_atoms_section atomlist =
     (if length atomlist \<noteq> 0 then
        join ''\<newline>''
          [''REMARK   5 WARNING: PDB2PQR was unable to assign charges'',
           ''REMARK   5 to the following atoms (omitted below):'',
           '''']
        @ concat (map (\<lambda>atom. ''REMARK   5    '' @ py_str_int (serial atom) @ '' ''
                         @ atom_name atom @ '' in '' @ res_name (residue atom) @ '' ''
                         @ py_str_int (res_seq (residue atom)) @ ''\<newline>'') atomlist)
        @ join ''\<newline>''
          [''REMARK   5 This is usually due to the fact that this residue is not'',
           ''REMARK   5 an amino acid or nucleic acid; or, there are no parameters'',
           ''REMARK   5 available for the specific protonation state of this'',
           ''REMARK   5 residue in the selected forcefield.'',
           ''REMARK   5'',
           '''']
      else [])"

definition charged_residues_section :: "'f float_ops \<Rightarrow> 'f charged_residue list \<Rightarrow> string" where
  "charged_residues_section ops reslist =
     (if length reslist \<noteq> 0 then
        join ''\<newline>''
          [''REMARK   5 WARNING: Non-integral net charges were found in'',
           ''REMARK   5 the following residues:'',
           '''']
        @ concat (map (\<lambda>residue. ''REMARK   5    '' @ residue_str residue @ '' - ''
                         @ ''Residue Charge: '' @ fixed ops 4 (residue_charge residue)
                         @ ''\<newline>'') reslist)
        @ ''REMARK   5\<newline>''
      else [])"

text \<open>
  The whole function. \<^verbatim>\<open>TITLE_STR\<close> of \<^verbatim>\<open>pdb2pqr.config\<close> and \<^verbatim>\<open>str.upper\<close> are
  parameters. The second binding of \<open>head\<close> is line 159,
  \<^verbatim>\<open>head += head + "REMARK   1\n"\<close>. Formatting \<^verbatim>\<open>ph\<close> raises \<^verbatim>\<open>TypeError\<close> when it is
  \<^verbatim>\<open>None\<close>.
\<close>

definition print_pqr_header ::
  "string \<Rightarrow> (string \<Rightarrow> string) \<Rightarrow> 'f float_ops \<Rightarrow> pdb_record list \<Rightarrow> 'f atom list
     \<Rightarrow> 'f charged_residue list \<Rightarrow> 'f \<Rightarrow> string option \<Rightarrow> string option \<Rightarrow> 'f option
     \<Rightarrow> string option \<Rightarrow> bool \<Rightarrow> string result" where
  "print_pqr_header TITLE_STR upper ops pdblist atomlist reslist charge force_field
       ph_calc_method ph ffout include_old_header =
     (let force_field' = (case force_field of None \<Rightarrow> ''User force field'' | Some f \<Rightarrow> upper f);
          head = banner_section TITLE_STR force_field' ffout;
          head = head @ (head @ ''REMARK   1\<newline>'')
      in bind_res
           (case ph_calc_method of
              None \<Rightarrow> Inr head
            | Some method \<Rightarrow>
                (case ph of
                   None \<Rightarrow> Inl TypeError
                 | Some v \<Rightarrow>
                     Inr (head @ join ''\<newline>''
                            [''REMARK   1 pKas calculated by '' @ method @ '' and ''
                             @ ''assigned using pH '' @ fixed ops 2 v @ ''\<newline>''
                             @ ''REMARK   1'',
                             ''''])))
           (\<lambda>head.
              let head = head @ omitted_atoms_section atomlist;
                  head = head @ charged_residues_section ops reslist;
                  head = head @ join ''\<newline>''
                           [''REMARK   6 Total charge on this biomolecule: ''
                            @ fixed ops 4 charge @ '' e\<newline>'' @ ''REMARK   6'',
                            ''''];
                  head = (if include_old_header
                          then head @ join ''\<newline>''
                                 [''REMARK   7 Original PDB header follows'', ''REMARK   7'', '''']
                               @ get_old_header pdblist
                          else head)
              in Inr head))"

text \<open>
  The number of places of a string where a given string starts, and the header that
  the function returns for the force field \<^verbatim>\<open>parse\<close>, the total charge 0 and nothing
  else.
\<close>

fun occurrences :: "string \<Rightarrow> string \<Rightarrow> nat" where
  "occurrences sub [] = 0"
| "occurrences sub (c # cs) = (if startswith (c # cs) sub then 1 else 0) + occurrences sub cs"

definition parse_header :: string where
  "parse_header =
     ''REMARK   1 PQR file generated by PDB2PQR\<newline>REMARK   1 PDB2PQR\<newline>REMARK   1\<newline>REMARK   1 Forcefield Used: PARSE\<newline>REMARK   1 PQR file generated by PDB2PQR\<newline>REMARK   1 PDB2PQR\<newline>REMARK   1\<newline>REMARK   1 Forcefield Used: PARSE\<newline>REMARK   1\<newline>REMARK   6 Total charge on this biomolecule: 0.0000 e\<newline>REMARK   6\<newline>''"

section \<open>Properties\<close>

subsection \<open>Results and strings\<close>

lemma sequence_res_map_Inr:
  "sequence_res (map (\<lambda>x. Inr (f x)) xs) = Inr (map f xs)"
  by (induction xs) simp_all

lemma column_positions_lookup:
  "map (map_of col_idx) column_names = map Some column_positions"
  by (simp add: col_idx_def column_names_def column_positions_def)

subsection \<open>DuplicateFilter\<close>

lemma filter_loop_no_match:
  "\<forall>p \<in> set watched. \<not> startswith msg p \<Longrightarrow> filter_loop limit watched msg self = (True, self)"
  by (induction watched) simp_all

lemma filter_loop_first_match:
  "find (startswith msg) watched = Some p \<Longrightarrow>
   filter_loop limit watched msg self =
     (let self' = self\<lparr>warn_count := (warn_count self)(p := warn_count self p + 1)\<rparr> in
      if int (warn_count self p + 1) > limit then (False, self')
      else if int (warn_count self p + 1) = limit then
        (False, self'\<lparr>logged := logged self @ [suppress_notice p]\<rparr>)
      else (True, self'))"
proof (induction watched)
  case Nil
  then show ?case by simp
next
  case (Cons w rest)
  show ?case
  proof (cases "startswith msg w")
    case True
    with Cons.prems have "p = w" by simp
    with True show ?thesis by (simp add: Let_def fun_upd_def)
  next
    case False
    with Cons.prems have "find (startswith msg) rest = Some p" by simp
    from Cons.IH[OF this] False show ?thesis by simp
  qed
qed

lemma find_skipped:
  "find (startswith (message skipped_warning)) watched_prefixes
     = Some ''Skipped atom during water optimization''"
  by (simp add: skipped_warning_def watched_prefixes_def startswith_def)

lemma starts_second: "startswith (message skipped_warning) ''Skipped atom''"
  by (simp add: skipped_warning_def startswith_def)

lemma no_match_other: "\<forall>p \<in> set watched_prefixes. \<not> startswith (message other_warning) p"
  by (simp add: other_warning_def watched_prefixes_def startswith_def)

lemma example_levels:
  "levelname skipped_warning = ''WARNING''" "levelname other_warning = ''WARNING''"
  "levelname skipped_info \<noteq> ''WARNING''"
  by (simp_all add: skipped_warning_def other_warning_def skipped_info_def)

lemma seen_zero: "seen 0 = duplicate_filter_init"
  by (simp add: seen_def duplicate_filter_init_def fun_upd_idem_iff)

lemma seen_fields:
  "warn_count (seen n) ''Skipped atom during water optimization'' = n"
  "warn_count (seen n) ''Skipped atom'' = 0"
  "logged (seen n) = []"
  by (simp_all add: seen_def)

text \<open>
  Claim C2, as the code has it. A record that is not of level \<^verbatim>\<open>WARNING\<close>, and a
  warning that starts with no watched prefix, pass (the result is \<^verbatim>\<open>True\<close>) and leave
  the filter as it was. For a warning, let \<open>p\<close> be the first watched prefix, in the
  order of the list, that the message starts with: the counter of \<open>p\<close>, and no other,
  goes up by one. If the new count is below the limit the record passes and nothing is
  logged; if it equals the limit the record is suppressed (the result is \<^verbatim>\<open>False\<close>) and
  one notice for \<open>p\<close> is logged; if it is above the limit the record is suppressed and
  nothing is logged.
\<close>

theorem filter_record_throttle:
  "(levelname record \<noteq> ''WARNING'' \<longrightarrow>
      filter_record limit watched self record = (True, self))
   \<and> (levelname record = ''WARNING'' \<and> (\<forall>p \<in> set watched. \<not> startswith (message record) p) \<longrightarrow>
      filter_record limit watched self record = (True, self))
   \<and> (levelname record = ''WARNING'' \<and> find (startswith (message record)) watched = Some p \<longrightarrow>
      (\<exists>allowed self'. filter_record limit watched self record = (allowed, self')
         \<and> warn_count self' = (warn_count self)(p := warn_count self p + 1)
         \<and> (int (warn_count self' p) < limit \<longrightarrow> allowed \<and> logged self' = logged self)
         \<and> (int (warn_count self' p) = limit \<longrightarrow>
               \<not> allowed \<and> logged self' = logged self @ [suppress_notice p])
         \<and> (int (warn_count self' p) > limit \<longrightarrow> \<not> allowed \<and> logged self' = logged self)))"
proof (intro conjI impI)
  assume "levelname record \<noteq> ''WARNING''"
  then show "filter_record limit watched self record = (True, self)"
    by (simp add: filter_record_def)
next
  assume "levelname record = ''WARNING'' \<and> (\<forall>p \<in> set watched. \<not> startswith (message record) p)"
  then show "filter_record limit watched self record = (True, self)"
    by (simp add: filter_record_def filter_loop_no_match)
next
  assume a: "levelname record = ''WARNING'' \<and> find (startswith (message record)) watched = Some p"
  define n where "n = warn_count self p + 1"
  define counted where "counted = self\<lparr>warn_count := (warn_count self)(p := n)\<rparr>"
  have wc: "warn_count counted = (warn_count self)(p := warn_count self p + 1)"
    and wcp: "warn_count counted p = n" and lg: "logged counted = logged self"
    by (simp_all add: counted_def n_def)
  from a have r: "filter_record limit watched self record =
     (if int n > limit then (False, counted)
      else if int n = limit then (False, counted\<lparr>logged := logged self @ [suppress_notice p]\<rparr>)
      else (True, counted))"
    by (simp add: filter_record_def filter_loop_first_match Let_def counted_def n_def)
  consider (above) "int n > limit" | (equal) "int n = limit" | (below) "int n < limit"
    by linarith
  then show "\<exists>allowed self'. filter_record limit watched self record = (allowed, self')
         \<and> warn_count self' = (warn_count self)(p := warn_count self p + 1)
         \<and> (int (warn_count self' p) < limit \<longrightarrow> allowed \<and> logged self' = logged self)
         \<and> (int (warn_count self' p) = limit \<longrightarrow>
               \<not> allowed \<and> logged self' = logged self @ [suppress_notice p])
         \<and> (int (warn_count self' p) > limit \<longrightarrow> \<not> allowed \<and> logged self' = logged self)"
  proof cases
    case above
    then have "filter_record limit watched self record = (False, counted)" by (simp add: r)
    with above wc wcp lg show ?thesis
      by (intro exI[of _ False] exI[of _ counted]) simp
  next
    case equal
    then have "filter_record limit watched self record
        = (False, counted\<lparr>logged := logged self @ [suppress_notice p]\<rparr>)" by (simp add: r)
    with equal wc wcp show ?thesis
      by (intro exI[of _ False] exI[of _ "counted\<lparr>logged := logged self @ [suppress_notice p]\<rparr>"]) simp
  next
    case below
    then have "filter_record limit watched self record = (True, counted)" by (simp add: r)
    with below wc wcp lg show ?thesis
      by (intro exI[of _ True] exI[of _ counted]) simp
  qed
qed

text \<open>
  The theorem with the limit 2: a record of level \<^verbatim>\<open>INFO\<close>, a warning that matches
  no prefix, and a watched warning met by a filter that has counted its prefix 0, 1 and
  2 times.
\<close>

theorem filter_record_throttle_witness:
  "filter_record 2 watched_prefixes (seen 0) skipped_info = (True, seen 0)
   \<and> filter_record 2 watched_prefixes (seen 0) other_warning = (True, seen 0)
   \<and> fst (filter_record 2 watched_prefixes (seen 0) skipped_warning)
   \<and> logged (snd (filter_record 2 watched_prefixes (seen 0) skipped_warning)) = []
   \<and> \<not> fst (filter_record 2 watched_prefixes (seen 1) skipped_warning)
   \<and> logged (snd (filter_record 2 watched_prefixes (seen 1) skipped_warning))
        = [suppress_notice ''Skipped atom during water optimization'']
   \<and> \<not> fst (filter_record 2 watched_prefixes (seen 2) skipped_warning)
   \<and> logged (snd (filter_record 2 watched_prefixes (seen 2) skipped_warning)) = []"
proof -
  note t = filter_record_throttle
  note t1 = t[THEN conjunct1, THEN mp]
  note t2 = t[THEN conjunct2, THEN conjunct1, THEN mp, OF conjI]
  note t3 = t[THEN conjunct2, THEN conjunct2, THEN mp, OF conjI]
  have 1: "filter_record 2 watched_prefixes (seen 0) skipped_info = (True, seen 0)"
    by (rule t1[OF example_levels(3)])
  have 2: "filter_record 2 watched_prefixes (seen 0) other_warning = (True, seen 0)"
    by (rule t2[OF example_levels(2) no_match_other])
  from t3[OF example_levels(1) find_skipped, of 2 "seen 0"]
  have 3: "fst (filter_record 2 watched_prefixes (seen 0) skipped_warning)
     \<and> logged (snd (filter_record 2 watched_prefixes (seen 0) skipped_warning)) = []"
    by (auto simp: seen_fields)
  from t3[OF example_levels(1) find_skipped, of 2 "seen 1"]
  have 4: "\<not> fst (filter_record 2 watched_prefixes (seen 1) skipped_warning)
     \<and> logged (snd (filter_record 2 watched_prefixes (seen 1) skipped_warning))
        = [suppress_notice ''Skipped atom during water optimization'']"
    by (auto simp: seen_fields)
  from t3[OF example_levels(1) find_skipped, of 2 "seen 2"]
  have 5: "\<not> fst (filter_record 2 watched_prefixes (seen 2) skipped_warning)
     \<and> logged (snd (filter_record 2 watched_prefixes (seen 2) skipped_warning)) = []"
    by (auto simp: seen_fields)
  from 1 2 3 4 5 show ?thesis by simp
qed

text \<open>
  Claim C2 as stated lets the record pass when the new count equals the limit. With
  the limit 2 and the prefix counted once, the count becomes 2 and the result is
  \<^verbatim>\<open>False\<close>. The message also starts with the second watched prefix, whose counter
  stays 0.
\<close>

theorem filter_record_at_limit_suppressed:
  "warn_count (snd (filter_record 2 watched_prefixes (seen 1) skipped_warning))
       ''Skipped atom during water optimization'' = 2
   \<and> \<not> fst (filter_record 2 watched_prefixes (seen 1) skipped_warning)
   \<and> startswith (message skipped_warning) ''Skipped atom''
   \<and> warn_count (seen 1) ''Skipped atom'' = 0
   \<and> warn_count (snd (filter_record 2 watched_prefixes (seen 1) skipped_warning)) ''Skipped atom'' = 0"
  by (simp add: filter_record_def example_levels filter_loop_first_match[OF find_skipped]
      starts_second seen_fields Let_def)


subsection \<open>generate_atom_site_columns\<close>

lemma column_positions_bound: "i \<in> set column_positions \<Longrightarrow> i \<le> 20"
  by (auto simp: column_positions_def)

lemma column_tokens_all:
  assumes "20 < length line"
  shows "map (column_token line) column_names = map (\<lambda>i. Inr (line ! i)) column_positions"
proof -
  have "map (column_token line) column_names
      = map (\<lambda>r. case r of None \<Rightarrow> Inl KeyError | Some i \<Rightarrow> index line i) (map (map_of col_idx) column_names)"
    by (simp add: column_token_def comp_def)
  also have "\<dots> = map (\<lambda>i. index line i) column_positions"
    by (simp only: column_positions_lookup) (simp add: comp_def)
  also have "\<dots> = map (\<lambda>i. Inr (line ! i)) column_positions"
  proof (rule map_cong[OF refl])
    fix i assume "i \<in> set column_positions"
    then have "i < length line" using column_positions_bound[of i] assms by simp
    then show "index line i = Inr (line ! i)" by (simp add: index_def)
  qed
  finally show ?thesis .
qed

lemma append_columns_ok:
  assumes "20 < length line"
  shows "append_columns cols line = Inr (map2 (\<lambda>col tok. col @ [tok]) cols (map (\<lambda>i. line ! i) column_positions))"
  by (simp add: append_columns_def column_tokens_all[OF assms] sequence_res_map_Inr bind_res_def)

lemma map2_append_nil:
  "length cols = length ps \<Longrightarrow> map2 (\<lambda>col i. col) cols ps = cols"
  by (induction cols ps rule: list_induct2) simp_all

lemma map2_append_step:
  "length cols = length ps \<Longrightarrow>
   map2 (\<lambda>col i. col @ f i) (map2 (\<lambda>col tok. col @ [tok]) cols (map g ps)) ps
     = map2 (\<lambda>col i. col @ g i # f i) cols ps"
  by (induction cols ps rule: list_induct2) simp_all

lemma atom_site_loop_char:
  assumes "length cols = length column_positions"
  shows "atom_site_loop cols ls =
     Inr (map2 (\<lambda>col i. col @ map (\<lambda>l. py_split l ! i) (filter accepted ls)) cols column_positions)"
  using assms
proof (induction ls arbitrary: cols)
  case Nil
  then show ?case by (simp add: map2_append_nil)
next
  case (Cons l ls)
  show ?case
  proof (cases "accepted l")
    case False
    then show ?thesis using Cons by simp
  next
    case True
    then have len: "20 < length (py_split l)" by (auto simp: accepted_def)
    let ?cols' = "map2 (\<lambda>col tok. col @ [tok]) cols (map (\<lambda>i. py_split l ! i) column_positions)"
    have l': "length ?cols' = length column_positions" using Cons.prems by simp
    have "atom_site_loop cols (l # ls) = atom_site_loop ?cols' ls"
      using True by (simp add: append_columns_ok[OF len] bind_res_def)
    also have "\<dots> = Inr (map2 (\<lambda>col i. col @ map (\<lambda>l. py_split l ! i) (filter accepted ls)) ?cols' column_positions)"
      by (rule Cons.IH[OF l'])
    also have "\<dots> = Inr (map2 (\<lambda>col i. col @ map (\<lambda>l. py_split l ! i) (filter accepted (l # ls))) cols column_positions)"
      using True by (simp add: map2_append_step[OF Cons.prems])
    finally show ?thesis .
  qed
qed

lemma map2_nil_cols:
  "length names = length ps \<Longrightarrow> map2 (\<lambda>col i. col @ f i) (map (\<lambda>_. []) names) ps = map f ps"
  by (induction names ps rule: list_induct2) simp_all

lemma length_column_names: "length column_names = length column_positions"
  by (simp add: column_names_def column_positions_def)

lemma split_line23:
  "py_split line23 =
    [''ATOM'', ''1'', ''N'', ''N'', ''.'', ''MET'', ''A'', ''1'', ''1'', ''?'',
     ''27.340'', ''24.430'', ''2.614'', ''1.00'', ''9.67'', ''?'', ''1'', ''MET'', ''A'',
     ''N'', ''1'', ''x'', ''y'']"
  by (simp add: line23_def py_split_def is_space_def)

lemma split_line24: "length (py_split line24) = 24"
  by (simp add: line24_def py_split_def is_space_def)

text \<open>
  Claim C4, as the code has it. For every list of input lines the call returns (it
  raises nothing); a line is accepted exactly when it has 23 or 25 whitespace-separated
  tokens; the result is a tuple of twenty-one columns (not eighteen), each with one
  entry per accepted line, in order: the column at place \<open>k\<close> of the tuple holds the
  token at position \<open>column_positions ! k\<close> of every accepted line, and the other lines
  contribute to no column.
\<close>

theorem generate_atom_site_columns_shape:
  "\<exists>cols. generate_atom_site_columns pdb_lines = Inr cols
     \<and> length cols = 21
     \<and> (\<forall>col \<in> set cols. length col = length (filter accepted pdb_lines))
     \<and> cols = map (\<lambda>i. map (\<lambda>l. py_split l ! i) (filter accepted pdb_lines)) column_positions
     \<and> (\<forall>l. accepted l = (length (py_split l) = 23 \<or> length (py_split l) = 25))"
proof -
  let ?cols = "map (\<lambda>i. map (\<lambda>l. py_split l ! i) (filter accepted pdb_lines)) column_positions"
  have "generate_atom_site_columns pdb_lines = Inr ?cols"
    unfolding generate_atom_site_columns_def
    by (simp add: atom_site_loop_char length_column_names map2_nil_cols)
  moreover have "length ?cols = 21" by (simp add: column_positions_def)
  moreover have "\<forall>col \<in> set ?cols. length col = length (filter accepted pdb_lines)" by auto
  moreover have "\<forall>l. accepted l = (length (py_split l) = 23 \<or> length (py_split l) = 25)"
    by (simp add: accepted_def)
  ultimately show ?thesis by blast
qed

text \<open>
  The theorem at a line of 23 tokens followed by a line of 24 tokens: every column gets
  the one token of the first line, and nothing of the second.
\<close>

theorem generate_atom_site_columns_witness:
  "generate_atom_site_columns [line23, line24] =
     Inr [[''ATOM''], [''1''], [''N''], [''N''], [''.''], [''MET''], [''A''],
          [''1''], [''1''], [''?''], [''27.340''], [''24.430''], [''2.614''],
          [''1.00''], [''9.67''], [''?''], [''1''], [''MET''], [''A''],
          [''N''], [''1'']]"
  using generate_atom_site_columns_shape [of "[line23, line24]"]
  by (simp add: accepted_def split_line23 split_line24 column_positions_def)

text \<open>
  Claim C4 as stated asks for eighteen columns. On one accepted line the tuple has
  twenty-one components.
\<close>

theorem generate_atom_site_columns_not_eighteen:
  "\<exists>cols. generate_atom_site_columns [line23] = Inr cols \<and> length cols = 21 \<and> length cols \<noteq> 18"
  by (simp add: generate_atom_site_columns_def accepted_def split_line23 append_columns_def
      column_names_def column_token_def col_idx_def index_def bind_res_def)

subsection \<open>read_dx\<close>

lemma words_object: "map py_strip (py_split ''object 1 class gridpositions counts 2 2 2'')
   = [''object'', ''1'', ''class'', ''gridpositions'', ''counts'', ''2'', ''2'', ''2'']"
  by (simp add: py_split_def py_strip_def is_space_def)

lemma py_int_two: "py_int ''2'' = Inr 2"
  by (simp add: py_int_def py_strip_def is_space_def is_digit_def digit_value_def)

lemma words_minimal:
  "map py_strip (py_split ''origin 0 0 0'') = [''origin'', ''0'', ''0'', ''0'']"
  "map py_strip (py_split ''delta 1 0 0'') = [''delta'', ''1'', ''0'', ''0'']"
  "map py_strip (py_split ''delta 0 1 0'') = [''delta'', ''0'', ''1'', ''0'']"
  "map py_strip (py_split ''delta 0 0 1'') = [''delta'', ''0'', ''0'', ''1'']"
  "map py_strip (py_split ''3 1 4'') = [''3'', ''1'', ''4'']"
  "map py_strip (py_split ''1 5 9'') = [''1'', ''5'', ''9'']"
  "map py_strip (py_split ''2 6'') = [''2'', ''6'']"
  by (simp_all add: py_split_def py_strip_def is_space_def)

lemma digit_floats_parse:
  "is_digit c \<Longrightarrow> parse_float digit_floats [c] = Some [c]"
  by (simp add: digit_floats_def)

lemma is_digit_literals:
  "is_digit (CHR ''0'')" "is_digit (CHR ''1'')" "is_digit (CHR ''2'')" "is_digit (CHR ''3'')"
  "is_digit (CHR ''4'')" "is_digit (CHR ''5'')" "is_digit (CHR ''6'')" "is_digit (CHR ''9'')"
  by (simp_all add: is_digit_def)

lemma blank_split_from: "\<forall>c \<in> set l. is_space c \<Longrightarrow> split_from [] l = []"
  by (induction l) simp_all

lemma blank_py_split: "\<forall>c \<in> set l. is_space c \<Longrightarrow> py_split l = []"
  by (simp add: py_split_def blank_split_from)

lemma read_dx_line_blank: "py_split l = [] \<Longrightarrow> read_dx_line ops dx l = Inl IndexError"
  by (simp add: read_dx_line_def index_def bind_res_def)

lemma read_dx_line_Inr_token: "read_dx_line ops dx l = Inr dx' \<Longrightarrow> py_split l \<noteq> []"
  using read_dx_line_blank[of l ops dx] by auto

lemma read_dx_loop_append:
  "read_dx_loop ops dx (pre @ post) = bind_res (read_dx_loop ops dx pre) (\<lambda>dx'. read_dx_loop ops dx' post)"
  by (induction pre arbitrary: dx) (auto simp: bind_res_def split: sum.splits)

lemma read_dx_loop_Inr_tokens:
  "read_dx_loop ops dx ls = Inr dx' \<Longrightarrow> \<forall>l \<in> set ls. py_split l \<noteq> []"
proof (induction ls arbitrary: dx)
  case Nil
  then show ?case by simp
next
  case (Cons l ls)
  then obtain dx1 where 1: "read_dx_line ops dx l = Inr dx1" and 2: "read_dx_loop ops dx1 ls = Inr dx'"
    by (auto simp: bind_res_def split: sum.splits)
  from 1 have "py_split l \<noteq> []" by (rule read_dx_line_Inr_token)
  with Cons.IH[OF 2] show ?case by simp
qed

text \<open>
  Claim C10. \<open>read_dx\<close> reads \<^verbatim>\<open>words[0]\<close> of every line. If a line \<open>l\<close> of the input
  is empty or all whitespace, the call raises: either a line before \<open>l\<close> raises, or those
  lines are read and the access to the first token of \<open>l\<close> raises \<^verbatim>\<open>IndexError\<close>; the
  line is never skipped. Hence, whenever the call returns, every line of the input has
  at least one token.
\<close>

theorem read_dx_blank_line:
  "((\<forall>c \<in> set l. is_space c) \<longrightarrow>
      read_dx ops (pre @ l # post) =
        (case read_dx ops pre of Inl e \<Rightarrow> Inl e | Inr dx \<Rightarrow> Inl IndexError))
   \<and> (read_dx ops dx_file = Inr dx' \<longrightarrow> (\<forall>line \<in> set dx_file. py_split line \<noteq> []))"
proof (intro conjI impI)
  assume "\<forall>c \<in> set l. is_space c"
  then have "py_split l = []" by (rule blank_py_split)
  then show "read_dx ops (pre @ l # post) =
        (case read_dx ops pre of Inl e \<Rightarrow> Inl e | Inr dx \<Rightarrow> Inl IndexError)"
    by (simp add: read_dx_def read_dx_loop_append read_dx_line_blank bind_res_def split: sum.splits)
next
  assume "read_dx ops dx_file = Inr dx'"
  then show "\<forall>line \<in> set dx_file. py_split line \<noteq> []"
    unfolding read_dx_def by (rule read_dx_loop_Inr_tokens)
qed


text \<open>
  The theorem at an origin line followed by a line of two blanks: the first line alone
  is read, the two lines together raise \<^verbatim>\<open>IndexError\<close>.
\<close>

theorem read_dx_blank_line_witness:
  "list_all is_space ''  ''
   \<and> read_dx digit_floats [''origin 0 0 0'', ''  ''] = Inl IndexError
   \<and> read_dx digit_floats [''origin 0 0 0''] =
       Inr \<lparr>grid_spacing = [], grid_values = [], number_of_grid_points = None,
            lower_left_corner = Some [''0'', ''0'', ''0'']\<rparr>
   \<and> py_split ''origin 0 0 0'' \<noteq> []"
proof -
  have blank: "\<forall>c \<in> set ''  ''. is_space c" by (simp add: is_space_def)
  have one: "read_dx digit_floats [''origin 0 0 0''] =
       Inr \<lparr>grid_spacing = [], grid_values = [], number_of_grid_points = None,
            lower_left_corner = Some [''0'', ''0'', ''0'']\<rparr>"
    by (simp add: read_dx_def read_dx_line_def words_minimal index_def bind_res_def
        py_float_def digit_floats_parse is_digit_literals)
  from read_dx_blank_line [where l = "''  ''" and ops = digit_floats
      and pre = "[''origin 0 0 0'']" and post = "[]" and dx_file = "[''origin 0 0 0'']"
      and dx' = "\<lparr>grid_spacing = [], grid_values = [], number_of_grid_points = None,
            lower_left_corner = Some [''0'', ''0'', ''0'']\<rparr>"]
  show ?thesis using blank one by (simp add: is_space_def)
qed

subsection \<open>write_cube\<close>

lemma values_loop_from:
  "i = 6 * j \<Longrightarrow>
   values_loop ops vals i =
     map (\<lambda>k. join '' '' (map (value_field ops) (take 6 (drop (6 * k) vals)))
                @ (if Suc k < (length vals + 5) div 6 then ''\<newline>'' else []))
         [j..<(length vals + 5) div 6]"
proof (induction ops vals i arbitrary: j rule: values_loop.induct)
  case (1 ops vals i)
  let ?n = "(length vals + 5) div 6"
  let ?f = "\<lambda>k. join '' '' (map (value_field ops) (take 6 (drop (6 * k) vals)))
                @ (if Suc k < ?n then ''\<newline>'' else [])"
  have ij: "i = 6 * j" by (rule 1(3))
  show ?case
  proof (cases "i < length vals")
    case False
    then have "?n \<le> j" using ij by simp
    then have "[j..<?n] = []" by simp
    moreover have "values_loop ops vals i = []"
      using False by (subst values_loop.simps) simp
    ultimately show ?thesis by simp
  next
    case True
    then have jn: "j < ?n" using ij by simp
    have upt: "[j..<?n] = j # [Suc j..<?n]" using jn by (rule upt_conv_Cons)
    have next_eq: "i + 6 = 6 * Suc j" using ij by simp
    show ?thesis
    proof (cases "i + 6 < length vals")
      case more: True
      then have sj: "Suc j < ?n" using ij by simp
      have rest: "values_loop ops vals (i + 6) = map ?f [Suc j..<?n]"
        using 1(1)[OF True more next_eq] .
      have "values_loop ops vals i =
          (join '' '' (map (value_field ops) (take 6 (drop i vals))) @ ''\<newline>'')
            # values_loop ops vals (i + 6)"
        using True more by (subst values_loop.simps) simp
      also have "join '' '' (map (value_field ops) (take 6 (drop i vals))) @ ''\<newline>'' = ?f j"
        using sj ij by simp
      finally show ?thesis unfolding rest upt by simp
    next
      case last: False
      then have nsj: "\<not> Suc j < ?n" using ij by simp
      then have "[Suc j..<?n] = []" by simp
      then have upt1: "[j..<?n] = [j]" using upt by simp
      have nil: "values_loop ops vals (i + 6) = []"
        using last by (subst values_loop.simps) simp
      have tk: "take 6 (drop i vals) = drop i vals" using last by simp
      have "values_loop ops vals i =
          join '' '' (map (value_field ops) (drop i vals)) # values_loop ops vals (i + 6)"
        using True last by (subst values_loop.simps) simp
      also have "join '' '' (map (value_field ops) (drop i vals)) = ?f j"
        using nsj tk ij by simp
      finally show ?thesis unfolding nil upt1 by simp
    qed
  qed
qed

lemma values_loop_lines:
  "values_loop ops vals 0 =
     map (\<lambda>k. join '' '' (map (value_field ops) (take 6 (drop (6 * k) vals)))
                @ (if Suc k < (length vals + 5) div 6 then ''\<newline>'' else []))
         [0..<(length vals + 5) div 6]"
  using values_loop_from[of 0 0 ops vals] by simp



lemma then_out_ok:
  "then_out a b = (ws, None) \<Longrightarrow> \<exists>wa wb. a = (wa, None) \<and> b = (wb, None) \<and> ws = wa @ wb"
  by (cases a; cases b) (auto simp: then_out_def split: option.splits)

lemma write_res_ok: "write_res r = (w, None) \<Longrightarrow> length w = 1"
  by (auto simp: write_res_def split: sum.splits)

lemma out_seq_Cons: "out_seq (a # outs) = then_out a (out_seq outs)"
  by (simp add: out_seq_def)

lemma out_seq_Nil: "out_seq [] = ([], None)"
  by (simp add: out_seq_def)

lemma out_seq_plain:
  "out_seq (map (\<lambda>a. ([f a], None)) xs @ rest) = (map f xs @ fst (out_seq rest), snd (out_seq rest))"
  by (induction xs) (simp_all add: out_seq_Cons then_out_def)

lemma write_cube_unfold:
  "write_cube ops d atom_list comment =
     then_out ([comment @ ''\<newline>''], None)
       (then_out ([''OUTER LOOP: X, MIDDLE LOOP: Y, INNER LOOP: Z\<newline>''], None)
         (then_out (write_res (origin_line ops (length atom_list) (lower_left_corner d)))
           (then_out (write_res (axis_line ops (number_of_grid_points d) (grid_spacing d) 0))
             (then_out (write_res (axis_line ops (number_of_grid_points d) (grid_spacing d) 1))
               (then_out (write_res (axis_line ops (number_of_grid_points d) (grid_spacing d) 2))
                  (map (atom_line ops) atom_list @ values_loop ops (grid_values d) 0, None))))))"
proof -
  have upt3: "[0..<3] = [0, 1, 2]" by (simp add: upt_rec numeral_3_eq_3)
  have tail: "out_seq (map (\<lambda>a. ([atom_line ops a], None)) atom_list @ [(values_loop ops (grid_values d) 0, None)])
     = (map (atom_line ops) atom_list @ values_loop ops (grid_values d) 0, None)"
    by (simp add: out_seq_plain out_seq_Cons out_seq_Nil then_out_def)
  show ?thesis
    unfolding write_cube_def upt3 by (simp add: out_seq_Cons tail)
qed

lemma write_cube_ok_shape:
  assumes "write_cube ops d atom_list comment = (ws, None)"
  shows "\<exists>w1 w2 w3 w4.
           write_res (origin_line ops (length atom_list) (lower_left_corner d)) = ([w1], None)
         \<and> write_res (axis_line ops (number_of_grid_points d) (grid_spacing d) 0) = ([w2], None)
         \<and> write_res (axis_line ops (number_of_grid_points d) (grid_spacing d) 1) = ([w3], None)
         \<and> write_res (axis_line ops (number_of_grid_points d) (grid_spacing d) 2) = ([w4], None)
         \<and> ws = [comment @ ''\<newline>'', ''OUTER LOOP: X, MIDDLE LOOP: Y, INNER LOOP: Z\<newline>'', w1, w2, w3, w4]
                @ map (atom_line ops) atom_list @ values_loop ops (grid_values d) 0"
proof -
  let ?o = "write_res (origin_line ops (length atom_list) (lower_left_corner d))"
  let ?ax = "\<lambda>i. write_res (axis_line ops (number_of_grid_points d) (grid_spacing d) i)"
  let ?tl = "map (atom_line ops) atom_list @ values_loop ops (grid_values d) 0"
  note u = assms[unfolded write_cube_unfold]
  from then_out_ok[OF u] obtain r1 where
    1: "then_out ([''OUTER LOOP: X, MIDDLE LOOP: Y, INNER LOOP: Z\<newline>''], None)
          (then_out ?o (then_out (?ax 0) (then_out (?ax 1) (then_out (?ax 2) (?tl, None))))) = (r1, None)"
    and ws1: "ws = [comment @ ''\<newline>''] @ r1" by auto
  from then_out_ok[OF 1] obtain r2 where
    2: "then_out ?o (then_out (?ax 0) (then_out (?ax 1) (then_out (?ax 2) (?tl, None)))) = (r2, None)"
    and ws2: "r1 = [''OUTER LOOP: X, MIDDLE LOOP: Y, INNER LOOP: Z\<newline>''] @ r2" by auto
  from then_out_ok[OF 2] obtain v1 r3 where
    o: "?o = (v1, None)" and 3: "then_out (?ax 0) (then_out (?ax 1) (then_out (?ax 2) (?tl, None))) = (r3, None)"
    and ws3: "r2 = v1 @ r3" by auto
  from then_out_ok[OF 3] obtain v2 r4 where
    a0: "?ax 0 = (v2, None)" and 4: "then_out (?ax 1) (then_out (?ax 2) (?tl, None)) = (r4, None)"
    and ws4: "r3 = v2 @ r4" by auto
  from then_out_ok[OF 4] obtain v3 r5 where
    a1: "?ax 1 = (v3, None)" and 5: "then_out (?ax 2) (?tl, None) = (r5, None)"
    and ws5: "r4 = v3 @ r5" by auto
  from then_out_ok[OF 5] obtain v4 where
    a2: "?ax 2 = (v4, None)" and ws6: "r5 = v4 @ ?tl" by auto
  from write_res_ok[OF o] obtain w1 where v1: "v1 = [w1]" by (cases v1) auto
  from write_res_ok[OF a0] obtain w2 where v2: "v2 = [w2]" by (cases v2) auto
  from write_res_ok[OF a1] obtain w3 where v3: "v3 = [w3]" by (cases v3) auto
  from write_res_ok[OF a2] obtain w4 where v4: "v4 = [w4]" by (cases v4) auto
  have "ws = [comment @ ''\<newline>'', ''OUTER LOOP: X, MIDDLE LOOP: Y, INNER LOOP: Z\<newline>'', w1, w2, w3, w4] @ ?tl"
    by (simp add: ws1 ws2 ws3 ws4 ws5 ws6 v1 v2 v3 v4)
  with o a0 a1 a2 v1 v2 v3 v4 show ?thesis by blast
qed

lemma rjust_minus_two: "rjust 4 (py_str_int (- 2)) = ''  -2''"
  by code_simp

lemma value_field_length:
  "length (sci_magnitude ops 5 v) \<le> 12 \<Longrightarrow> length (value_field ops v) = 13"
  by (simp add: value_field_def ljust_def)


lemma read_dx_minimal:
  assumes p: "\<And>c. is_digit c \<Longrightarrow> parse_float ops [c] = Some (F c)"
  shows "read_dx ops minimal_dx =
     Inr \<lparr>grid_spacing = map (map F) [''100'', ''010'', ''001''],
          grid_values = map F ''31415926'',
          number_of_grid_points = Some [2, 2, 2],
          lower_left_corner = Some (map F ''000'')\<rparr>"
  by (simp add: read_dx_def minimal_dx_def read_dx_line_def words_object words_minimal
      py_int_two index_def bind_res_def py_float_def p[OF is_digit_literals(1)]
      p[OF is_digit_literals(2)] p[OF is_digit_literals(3)] p[OF is_digit_literals(4)]
      p[OF is_digit_literals(5)] p[OF is_digit_literals(6)] p[OF is_digit_literals(7)]
      p[OF is_digit_literals(8)])

lemma write_cube_populated:
  assumes "lower_left_corner d = Some [o0, o1, o2]"
    and "number_of_grid_points d = Some [n0, n1, n2]"
    and "grid_spacing d = [[a0, a1, a2], [b0, b1, b2], [c0, c1, c2]]"
  shows "write_cube ops d atom_list comment =
     ([comment @ ''\<newline>'', ''OUTER LOOP: X, MIDDLE LOOP: Y, INNER LOOP: Z\<newline>'',
       rjust 4 (py_str_int (int (length atom_list))) @ '' '' @ join '' '' (map (\<lambda>v. rjust 11 (fixed ops 6 v)) [o0, o1, o2]) @ ''\<newline>'',
       rjust 4 (py_str_int (- n0)) @ '' '' @ join '' '' (map (\<lambda>v. rjust 11 (fixed ops 6 v)) [a0, a1, a2]) @ ''\<newline>'',
       rjust 4 (py_str_int (- n1)) @ '' '' @ join '' '' (map (\<lambda>v. rjust 11 (fixed ops 6 v)) [b0, b1, b2]) @ ''\<newline>'',
       rjust 4 (py_str_int (- n2)) @ '' '' @ join '' '' (map (\<lambda>v. rjust 11 (fixed ops 6 v)) [c0, c1, c2]) @ ''\<newline>'']
      @ map (atom_line ops) atom_list @ values_loop ops (grid_values d) 0, None)"
  unfolding write_cube_unfold using assms
  by (simp add: origin_line_def axis_line_def subscript_def index_def bind_res_def write_res_def then_out_def)

lemma read_dx_minimal_digits: "read_dx digit_floats minimal_dx = Inr eight_values"
  using read_dx_minimal[of digit_floats "\<lambda>c. [c]"]
  by (simp add: eight_values_def digit_floats_parse)

lemma fixed_digit_floats:
  "rjust 11 (fixed digit_floats 6 [c]) = ''   '' @ [c] @ ''.000000''"
  by (simp add: rjust_def digit_floats_def eval_nat_numeral)

lemma value_field_digit:
  "value_field digit_floats [c] = '' '' @ [c] @ ''.00000E+00 ''"
  by (simp add: value_field_def ljust_def digit_floats_def eval_nat_numeral)

lemma write_cube_eight_values:
  "write_cube digit_floats eight_values [] ''CPMD CUBE FILE.'' =
     ([''CPMD CUBE FILE.\<newline>'', ''OUTER LOOP: X, MIDDLE LOOP: Y, INNER LOOP: Z\<newline>'',
       ''   0    0.000000    0.000000    0.000000\<newline>'',
       ''  -2    1.000000    0.000000    0.000000\<newline>'',
       ''  -2    0.000000    1.000000    0.000000\<newline>'',
       ''  -2    0.000000    0.000000    1.000000\<newline>'',
       '' 3.00000E+00   1.00000E+00   4.00000E+00   1.00000E+00   5.00000E+00   9.00000E+00 \<newline>'',
       '' 2.00000E+00   6.00000E+00 ''], None)"
proof -
  have z: "rjust 4 (py_str_int 0) = ''   0''" by code_simp
  have v: "values_loop digit_floats [''3'', ''1'', ''4'', ''1'', ''5'', ''9'', ''2'', ''6''] 0 =
       ['' 3.00000E+00   1.00000E+00   4.00000E+00   1.00000E+00   5.00000E+00   9.00000E+00 \<newline>'',
       '' 2.00000E+00   6.00000E+00 '']"
    by (simp add: values_loop.simps value_field_digit)
  show ?thesis
    by (subst write_cube_populated[of eight_values "''0''" "''0''" "''0''" 2 2 2
          "''1''" "''0''" "''0''" "''0''" "''1''" "''0''" "''0''" "''0''" "''1''"])
       (simp_all add: eight_values_def fixed_digit_floats rjust_minus_two z v)
qed

lemma sequence_res_py_float:
  "list_all (\<lambda>w. parse_float ops w \<noteq> None) ws \<Longrightarrow>
   sequence_res (map (py_float ops) ws) = Inr (map (float_of ops) ws)"
  by (induction ws) (auto simp: py_float_def float_of_def)

lemma read_dx_line_counts:
  assumes "counts_222_line line"
  shows "read_dx_line ops dx line = Inr (dx\<lparr>number_of_grid_points := Some [2, 2, 2]\<rparr>)"
proof -
  let ?w = "dx_words line"
  from assms have t2: "take 2 ?w = [''object'', ''1'']"
    and t3: "take 3 (drop 5 ?w) = [''2'', ''2'', ''2'']"
    by (simp_all add: counts_222_line_def)
  from t3 have "length (take 3 (drop 5 ?w)) = 3" by simp
  then have len: "8 \<le> length ?w" by simp
  from t2 len have w0: "?w ! 0 = ''object''" and w1: "?w ! 1 = ''1''"
    by (metis nth_take zero_less_numeral nth_Cons_0,
        metis nth_take one_less_numeral_iff semiring_norm(76) nth_Cons_0 nth_Cons_Suc One_nat_def)
  have "take 3 (drop 5 ?w) ! 0 = ?w ! 5" "take 3 (drop 5 ?w) ! 1 = ?w ! 6"
       "take 3 (drop 5 ?w) ! 2 = ?w ! 7"
    using len by simp_all
  with t3 have w5: "?w ! 5 = ''2''" and w6: "?w ! 6 = ''2''" and w7: "?w ! 7 = ''2''"
    by simp_all
  from len have ne: "?w \<noteq> []" by auto
  show ?thesis
    using len ne w0 w1 w5 w6 w7
    by (simp add: read_dx_line_def dx_words_def[symmetric] Let_def index_def bind_res_def
        py_int_two)
qed

lemma read_dx_line_origin:
  assumes "origin_000_line line" and "parse_float ops ''0'' = Some z"
  shows "read_dx_line ops dx line = Inr (dx\<lparr>lower_left_corner := Some [z, z, z]\<rparr>)"
proof -
  let ?w = "dx_words line"
  from assms have t: "take 4 ?w = [''origin'', ''0'', ''0'', ''0'']"
    by (simp add: origin_000_line_def)
  then have "length (take 4 ?w) = 4" by simp
  then have len: "4 \<le> length ?w" by simp
  have "take 4 ?w ! 0 = ?w ! 0" "take 4 ?w ! 1 = ?w ! 1" "take 4 ?w ! 2 = ?w ! 2"
       "take 4 ?w ! 3 = ?w ! 3"
    by simp_all
  with t have "?w ! 0 = ''origin''" "?w ! 1 = ''0''" "?w ! 2 = ''0''" "?w ! 3 = ''0''"
    by simp_all
  moreover from len have "?w \<noteq> []" by auto
  ultimately show ?thesis
    using len assms(2)
    by (simp add: read_dx_line_def dx_words_def[symmetric] Let_def index_def bind_res_def
        py_float_def)
qed

lemma read_dx_line_delta:
  assumes "delta_line ops line"
  shows "read_dx_line ops dx line =
     Inr (dx\<lparr>grid_spacing := grid_spacing dx
                @ [map (float_of ops) (take 3 (tl (dx_words line)))]\<rparr>)"
proof -
  let ?w = "dx_words line"
  from assms have t: "take 1 ?w = [''delta'']" and len: "4 \<le> length ?w"
    and p: "list_all (\<lambda>w. parse_float ops w \<noteq> None) (take 3 (tl ?w))"
    by (simp_all add: delta_line_def)
  from len obtain w0 w1 w2 w3 rest where w: "?w = w0 # w1 # w2 # w3 # rest"
    by (cases ?w; cases "tl ?w"; cases "tl (tl ?w)"; cases "tl (tl (tl ?w))") auto
  from t w have w0: "w0 = ''delta''" by simp
  from p w have "parse_float ops w1 \<noteq> None" "parse_float ops w2 \<noteq> None"
    "parse_float ops w3 \<noteq> None"
    by simp_all
  then have "parse_float ops w1 = Some (float_of ops w1)"
    "parse_float ops w2 = Some (float_of ops w2)" "parse_float ops w3 = Some (float_of ops w3)"
    by (auto simp: float_of_def)
  then show ?thesis
    unfolding read_dx_line_def dx_words_def[symmetric] w w0
    by (simp add: index_def bind_res_def py_float_def)
qed

lemma read_dx_line_scalar:
  assumes "scalar_line ops line"
  shows "read_dx_line ops dx line =
     Inr (dx\<lparr>grid_values := grid_values dx @ map (float_of ops) (dx_words line)\<rparr>)"
proof -
  let ?w = "dx_words line"
  from assms have ne: "?w \<noteq> []"
    and h: "hd ?w \<notin> set [''#'', ''attribute'', ''component'', ''object'', ''origin'', ''delta'']"
    and p: "list_all (\<lambda>w. parse_float ops w \<noteq> None) ?w"
    by (simp_all add: scalar_line_def)
  from ne have i: "index ?w 0 = Inr (hd ?w)"
    by (cases ?w) (simp_all add: index_def)
  from h have "hd ?w \<noteq> ''#''" "hd ?w \<noteq> ''attribute''" "hd ?w \<noteq> ''component''"
    "hd ?w \<noteq> ''object''" "hd ?w \<noteq> ''origin''" "hd ?w \<noteq> ''delta''"
    by simp_all
  then show ?thesis
    unfolding read_dx_line_def dx_words_def[symmetric] Let_def i
    by (simp add: bind_res_def sequence_res_py_float[OF p])
qed

lemma read_dx_line_skipped:
  assumes "skipped_line line"
  shows "read_dx_line ops dx line = Inr dx"
proof -
  let ?w = "dx_words line"
  from assms have ne: "?w \<noteq> []"
    and h: "hd ?w \<in> set [''#'', ''attribute'', ''component'']
         \<or> (take 1 ?w = [''object''] \<and> length ?w \<ge> 2 \<and> ?w ! 1 \<noteq> ''1'')"
    by (simp_all add: skipped_line_def)
  from ne have i: "index ?w 0 = Inr (hd ?w)"
    by (cases ?w) (simp_all add: index_def)
  from h show ?thesis
  proof
    assume "hd ?w \<in> set [''#'', ''attribute'', ''component'']"
    then show ?thesis
      unfolding read_dx_line_def dx_words_def[symmetric] Let_def i
      by (simp add: bind_res_def)
  next
    assume a: "take 1 ?w = [''object''] \<and> length ?w \<ge> 2 \<and> ?w ! 1 \<noteq> ''1''"
    with ne have "hd ?w = ''object''" by (cases ?w) simp_all
    with a show ?thesis
      unfolding read_dx_line_def dx_words_def[symmetric] Let_def i
      by (simp add: bind_res_def index_def)
  qed
qed

lemma line_kinds_apart:
  "counts_222_line l \<Longrightarrow> \<not> origin_000_line l \<and> \<not> delta_line ops l \<and> \<not> scalar_line ops l"
  "origin_000_line l \<Longrightarrow> \<not> delta_line ops l \<and> \<not> scalar_line ops l"
  "delta_line ops l \<Longrightarrow> \<not> scalar_line ops l"
  "skipped_line l \<Longrightarrow> \<not> counts_222_line l \<and> \<not> origin_000_line l \<and> \<not> delta_line ops l
      \<and> \<not> scalar_line ops l"
  by (cases "dx_words l"; cases "tl (dx_words l)";
      auto simp: counts_222_line_def origin_000_line_def delta_line_def scalar_line_def
        skipped_line_def)+


lemma read_dx_loop_kinds:
  assumes z: "parse_float ops ''0'' = Some z"
  shows "\<forall>l \<in> set ls. counts_222_line l \<or> origin_000_line l \<or> delta_line ops l
            \<or> scalar_line ops l \<or> skipped_line l \<Longrightarrow>
    read_dx_loop ops dx ls =
      Inr \<lparr>grid_spacing = grid_spacing dx
              @ map (\<lambda>l. map (float_of ops) (take 3 (tl (dx_words l)))) (filter (delta_line ops) ls),
           grid_values = grid_values dx
              @ map (float_of ops) (concat (map dx_words (filter (scalar_line ops) ls))),
           number_of_grid_points =
              (if \<exists>l \<in> set ls. counts_222_line l then Some [2, 2, 2] else number_of_grid_points dx),
           lower_left_corner =
              (if \<exists>l \<in> set ls. origin_000_line l then Some [z, z, z] else lower_left_corner dx)\<rparr>"
proof (induction ls arbitrary: dx)
  case Nil
  then show ?case by simp
next
  case (Cons l ls)
  then have rest: "\<forall>l \<in> set ls. counts_222_line l \<or> origin_000_line l \<or> delta_line ops l
            \<or> scalar_line ops l \<or> skipped_line l"
    by simp
  note IH = Cons.IH[OF rest]
  from Cons.prems consider (counts) "counts_222_line l" | (origin) "origin_000_line l"
    | (delta) "delta_line ops l" | (scalar) "scalar_line ops l" | (skipped) "skipped_line l"
    by auto
  then show ?case
  proof cases
    case counts
    from line_kinds_apart(1)[OF counts, of ops] show ?thesis
      by (simp add: read_dx_line_counts[OF counts] bind_res_def IH counts)
  next
    case origin
    from line_kinds_apart(2)[OF origin, of ops] line_kinds_apart(1)[of l ops] origin
    have "\<not> delta_line ops l" "\<not> scalar_line ops l" "\<not> counts_222_line l" by auto
    then show ?thesis
      by (simp add: read_dx_line_origin[OF origin z] bind_res_def IH origin)
  next
    case delta
    from line_kinds_apart(3)[OF delta] line_kinds_apart(1,2)[of l ops] delta
    have "\<not> scalar_line ops l" "\<not> counts_222_line l" "\<not> origin_000_line l" by auto
    then show ?thesis
      by (simp add: read_dx_line_delta[OF delta] bind_res_def IH delta)
  next
    case scalar
    from line_kinds_apart(1,2)[of l ops] line_kinds_apart(3)[of ops l] scalar
    have "\<not> delta_line ops l" "\<not> counts_222_line l" "\<not> origin_000_line l" by auto
    then show ?thesis
      by (simp add: read_dx_line_scalar[OF scalar] bind_res_def IH scalar)
  next
    case skipped
    from line_kinds_apart(4)[OF skipped, of ops] show ?thesis
      by (simp add: read_dx_line_skipped[OF skipped] bind_res_def IH)
  qed
qed

lemma length_three: "length xs = 3 \<Longrightarrow> \<exists>a b c. xs = [a, b, c]"
  by (cases xs; cases "tl xs"; cases "tl (tl xs)") auto

lemma take_three_tl:
  "4 \<le> length w \<Longrightarrow> \<exists>a b c. take 3 (tl w) = [a, b, c]"
  by (rule length_three) simp

lemma kinds_minimal:
  "counts_222_line ''object 1 class gridpositions counts 2 2 2''"
  "origin_000_line ''origin 0 0 0''"
  "filter (delta_line digit_floats) minimal_dx = [''delta 1 0 0'', ''delta 0 1 0'', ''delta 0 0 1'']"
  "filter (scalar_line digit_floats) minimal_dx = [''3 1 4'', ''1 5 9'', ''2 6'']"
  by (simp_all add: minimal_dx_def counts_222_line_def origin_000_line_def delta_line_def
      scalar_line_def dx_words_def words_object words_minimal digit_floats_parse
      is_digit_literals)

text \<open>
  Claim C7. Take any grid text whose lines are each of one of the five kinds of lines, in
  any order, with an \<^verbatim>\<open>object 1\<close> line whose tokens 5 to 7 are 2 2 2 (whatever its
  other tokens are), an \<^verbatim>\<open>origin 0 0 0\<close> line, exactly three \<^verbatim>\<open>delta\<close> lines (whatever
  their three numbers are) and scalar lines with eight tokens in all (however they are
  spread over the lines), over any floats for which \<^verbatim>\<open>float('0')\<close> is defined. Then
  \<open>read_dx\<close> returns a dictionary with the grid point counts (2, 2, 2), with the eight
  values in the order of the text, and with three spacings, the numbers of the three
  \<^verbatim>\<open>delta\<close> lines in order. Writing it with \<open>write_cube\<close>, for any atoms and comment,
  raises nothing and writes three lines of header, then exactly three axis lines, one
  per spacing and with the numbers of that spacing, each starting with the field
  \<^verbatim>\<open>  -2\<close>, then the atom lines and the values.
\<close>

theorem read_dx_write_cube_minimal:
  assumes kinds: "\<forall>line \<in> set dx_file. counts_222_line line \<or> origin_000_line line
            \<or> delta_line ops line \<or> scalar_line ops line \<or> skipped_line line"
    and counts: "\<exists>line \<in> set dx_file. counts_222_line line"
    and origin: "\<exists>line \<in> set dx_file. origin_000_line line"
    and zero: "parse_float ops ''0'' \<noteq> None"
    and deltas: "length (filter (delta_line ops) dx_file) = 3"
    and scalars: "length (concat (map dx_words (filter (scalar_line ops) dx_file))) = 8"
  shows "\<exists>dx. read_dx ops dx_file = Inr dx
            \<and> number_of_grid_points dx = Some [2, 2, 2]
            \<and> length (grid_values dx) = 8
            \<and> grid_values dx =
                map (float_of ops) (concat (map dx_words (filter (scalar_line ops) dx_file)))
            \<and> length (grid_spacing dx) = 3
            \<and> grid_spacing dx =
                map (\<lambda>line. map (float_of ops) (take 3 (tl (dx_words line))))
                    (filter (delta_line ops) dx_file)
            \<and> (\<exists>line0 line1 origin.
                  write_cube ops dx atom_list comment =
                    ([line0, line1, origin]
                     @ map (\<lambda>s. ''  -2 '' @ join '' '' (map (\<lambda>v. rjust 11 (fixed ops 6 v)) s) @ ''\<newline>'')
                           (grid_spacing dx)
                     @ map (atom_line ops) atom_list
                     @ values_loop ops (grid_values dx) 0, None))"
proof -
  from zero obtain z where z: "parse_float ops ''0'' = Some z" by auto
  let ?sp = "map (\<lambda>line. map (float_of ops) (take 3 (tl (dx_words line))))
                    (filter (delta_line ops) dx_file)"
  let ?vals = "map (float_of ops) (concat (map dx_words (filter (scalar_line ops) dx_file)))"
  let ?dx = "\<lparr>grid_spacing = ?sp, grid_values = ?vals,
              number_of_grid_points = Some [2, 2, 2], lower_left_corner = Some [z, z, z]\<rparr>"
  have r: "read_dx ops dx_file = Inr ?dx"
    unfolding read_dx_def using read_dx_loop_kinds[OF z kinds] counts origin by simp
  from length_three[OF deltas] obtain l1 l2 l3 where
    f: "filter (delta_line ops) dx_file = [l1, l2, l3]" by blast
  then have "l1 \<in> set (filter (delta_line ops) dx_file)"
    "l2 \<in> set (filter (delta_line ops) dx_file)" "l3 \<in> set (filter (delta_line ops) dx_file)"
    by simp_all
  then have "4 \<le> length (dx_words l1)" "4 \<le> length (dx_words l2)" "4 \<le> length (dx_words l3)"
    by (simp_all add: delta_line_def)
  then obtain a0 a1 a2 b0 b1 b2 c0 c1 c2 where
    "take 3 (tl (dx_words l1)) = [a0, a1, a2]" "take 3 (tl (dx_words l2)) = [b0, b1, b2]"
    "take 3 (tl (dx_words l3)) = [c0, c1, c2]"
    using take_three_tl by metis
  with f have sp: "?sp = [[float_of ops a0, float_of ops a1, float_of ops a2],
      [float_of ops b0, float_of ops b1, float_of ops b2],
      [float_of ops c0, float_of ops c1, float_of ops c2]]"
    by simp
  have w: "write_cube ops ?dx atom_list comment =
     ([comment @ ''\<newline>'', ''OUTER LOOP: X, MIDDLE LOOP: Y, INNER LOOP: Z\<newline>'',
       rjust 4 (py_str_int (int (length atom_list))) @ '' ''
         @ join '' '' (map (\<lambda>v. rjust 11 (fixed ops 6 v)) [z, z, z]) @ ''\<newline>'']
      @ map (\<lambda>s. ''  -2 '' @ join '' '' (map (\<lambda>v. rjust 11 (fixed ops 6 v)) s) @ ''\<newline>'') (grid_spacing ?dx)
      @ map (atom_line ops) atom_list @ values_loop ops (grid_values ?dx) 0, None)"
    by (subst write_cube_populated[of ?dx z z z 2 2 2
          "float_of ops a0" "float_of ops a1" "float_of ops a2"
          "float_of ops b0" "float_of ops b1" "float_of ops b2"
          "float_of ops c0" "float_of ops c1" "float_of ops c2"])
       (simp_all add: sp rjust_minus_two)
  show ?thesis
    unfolding r using w deltas scalars by (intro exI conjI) (rule refl, simp_all)
qed


text \<open>
  The theorem at \<open>minimal_dx\<close> over \<open>digit_floats\<close>, with no atoms: every line is of a
  kind, three are \<^verbatim>\<open>delta\<close> lines, and the scalar lines hold eight tokens.
\<close>

theorem read_dx_write_cube_minimal_witness:
  "list_all (\<lambda>line. counts_222_line line \<or> origin_000_line line \<or> delta_line digit_floats line
                \<or> scalar_line digit_floats line \<or> skipped_line line) minimal_dx
   \<and> length (filter (delta_line digit_floats) minimal_dx) = 3
   \<and> length (concat (map dx_words (filter (scalar_line digit_floats) minimal_dx))) = 8
   \<and> read_dx digit_floats minimal_dx = Inr eight_values
   \<and> number_of_grid_points eight_values = Some [2, 2, 2]
   \<and> length (grid_values eight_values) = 8
   \<and> take 3 (drop 3 (fst (write_cube digit_floats eight_values [] ''CPMD CUBE FILE.''))) =
       [''  -2    1.000000    0.000000    0.000000\<newline>'',
        ''  -2    0.000000    1.000000    0.000000\<newline>'',
        ''  -2    0.000000    0.000000    1.000000\<newline>'']"
proof -
  have d: "length (filter (delta_line digit_floats) minimal_dx) = 3"
    by (simp add: kinds_minimal)
  have s: "length (concat (map dx_words (filter (scalar_line digit_floats) minimal_dx))) = 8"
    by (simp add: kinds_minimal dx_words_def words_minimal)
  have m: "set minimal_dx = {''object 1 class gridpositions counts 2 2 2'', ''origin 0 0 0''}
             \<union> set (filter (delta_line digit_floats) minimal_dx)
             \<union> set (filter (scalar_line digit_floats) minimal_dx)"
    unfolding kinds_minimal by (auto simp add: minimal_dx_def)
  have k: "\<forall>line \<in> set minimal_dx. counts_222_line line \<or> origin_000_line line
            \<or> delta_line digit_floats line \<or> scalar_line digit_floats line \<or> skipped_line line"
    unfolding m using kinds_minimal(1,2) by auto
  have c: "\<exists>line \<in> set minimal_dx. counts_222_line line"
    using kinds_minimal(1) by (auto simp add: minimal_dx_def)
  have o: "\<exists>line \<in> set minimal_dx. origin_000_line line"
    using kinds_minimal(2) by (auto simp add: minimal_dx_def)
  have z: "parse_float digit_floats ''0'' \<noteq> None"
    by (simp add: digit_floats_parse is_digit_literals)
  from read_dx_write_cube_minimal[OF k c o z d s, of "[]" "''CPMD CUBE FILE.''"]
  have "take 3 (drop 3 (fst (write_cube digit_floats eight_values [] ''CPMD CUBE FILE.''))) =
       [''  -2    1.000000    0.000000    0.000000\<newline>'',
        ''  -2    0.000000    1.000000    0.000000\<newline>'',
        ''  -2    0.000000    0.000000    1.000000\<newline>'']"
    unfolding read_dx_minimal_digits
    by (auto simp add: fixed_digit_floats eight_values_def)
  with k d s show ?thesis
    by (simp add: read_dx_minimal_digits list_all_iff) (simp add: eight_values_def)
qed

text \<open>
  Claim C8, as the code has it. Whenever \<open>write_cube\<close> completes, the writes after the
  six header and axis lines and the atom lines are the values in chunks of six: chunk
  \<open>k\<close> holds the fields of the values \<open>6k\<close> to \<open>6k + 5\<close> joined by one blank; every chunk
  but the last has six values and ends with a line break, the last has one to six
  values and no line break, and nothing follows it. The field of a value is its sign
  place (a minus sign, or a blank for a number without one), then its magnitude in
  scientific notation with five decimals, then blanks up to thirteen columns: it is
  left-justified, and thirteen columns wide if the magnitude has at most twelve
  characters. On a dictionary with a corner, three counts and three spacings the call
  does complete.
\<close>

theorem write_cube_value_chunks:
  "(write_cube ops d atom_list comment = (ws, None) \<longrightarrow>
      drop (6 + length atom_list) ws =
        map (\<lambda>k. join '' '' (map (value_field ops) (take 6 (drop (6 * k) (grid_values d))))
                   @ (if Suc k < (length (grid_values d) + 5) div 6 then ''\<newline>'' else []))
            [0..<(length (grid_values d) + 5) div 6])
   \<and> (\<forall>k. Suc k < (length (grid_values d) + 5) div 6 \<longrightarrow>
          length (take 6 (drop (6 * k) (grid_values d))) = 6)
   \<and> (\<forall>k. Suc k = (length (grid_values d) + 5) div 6 \<longrightarrow>
          length (take 6 (drop (6 * k) (grid_values d))) \<in> {1..6}
          \<and> drop (6 * Suc k) (grid_values d) = [])
   \<and> (\<forall>v. value_field ops v =
          (if sign_minus ops v then ''-'' else '' '') @ sci_magnitude ops 5 v
          @ replicate (12 - length (sci_magnitude ops 5 v)) (CHR '' ''))
   \<and> (\<forall>v. length (sci_magnitude ops 5 v) \<le> 12 \<longrightarrow> length (value_field ops v) = 13)
   \<and> (lower_left_corner d = Some [o0, o1, o2] \<and> number_of_grid_points d = Some [n0, n1, n2]
        \<and> grid_spacing d = [[a0, a1, a2], [b0, b1, b2], [c0, c1, c2]] \<longrightarrow>
        snd (write_cube ops d atom_list comment) = None)"
proof (intro conjI allI impI)
  assume ok: "write_cube ops d atom_list comment = (ws, None)"
  from write_cube_ok_shape[OF ok] obtain w1 w2 w3 w4 where
    "ws = [comment @ ''\<newline>'', ''OUTER LOOP: X, MIDDLE LOOP: Y, INNER LOOP: Z\<newline>'', w1, w2, w3, w4]
          @ map (atom_line ops) atom_list @ values_loop ops (grid_values d) 0"
    by blast
  then have "\<exists>h. length h = 6 + length atom_list \<and> ws = h @ values_loop ops (grid_values d) 0"
    by (intro exI[of _ "[comment @ ''\<newline>'', ''OUTER LOOP: X, MIDDLE LOOP: Y, INNER LOOP: Z\<newline>'', w1, w2, w3, w4]
          @ map (atom_line ops) atom_list"]) simp
  then have "drop (6 + length atom_list) ws = values_loop ops (grid_values d) 0" by auto
  then show "drop (6 + length atom_list) ws =
        map (\<lambda>k. join '' '' (map (value_field ops) (take 6 (drop (6 * k) (grid_values d))))
                   @ (if Suc k < (length (grid_values d) + 5) div 6 then ''\<newline>'' else []))
            [0..<(length (grid_values d) + 5) div 6]"
    by (simp add: values_loop_lines)
next
  fix k assume "Suc k < (length (grid_values d) + 5) div 6"
  then have "6 * k + 6 \<le> length (grid_values d)" by simp
  then show "length (take 6 (drop (6 * k) (grid_values d))) = 6" by simp
next
  fix k assume k: "Suc k = (length (grid_values d) + 5) div 6"
  then have "6 * k < length (grid_values d)" "length (grid_values d) \<le> 6 * k + 6" by linarith+
  then show "length (take 6 (drop (6 * k) (grid_values d))) \<in> {1..6}" by auto
  show "drop (6 * Suc k) (grid_values d) = []" using k by simp
next
  fix v show "value_field ops v =
          (if sign_minus ops v then ''-'' else '' '') @ sci_magnitude ops 5 v
          @ replicate (12 - length (sci_magnitude ops 5 v)) (CHR '' '')"
    by (simp add: value_field_def ljust_def)
next
  fix v assume "length (sci_magnitude ops 5 v) \<le> 12"
  then show "length (value_field ops v) = 13" by (rule value_field_length)
next
  assume "lower_left_corner d = Some [o0, o1, o2] \<and> number_of_grid_points d = Some [n0, n1, n2]
        \<and> grid_spacing d = [[a0, a1, a2], [b0, b1, b2], [c0, c1, c2]]"
  then show "snd (write_cube ops d atom_list comment) = None"
    by (simp add: write_cube_populated)
qed

text \<open>The theorem on \<open>eight_values\<close>: a chunk of six values, then a chunk of two.\<close>

theorem write_cube_value_chunks_witness:
  "drop 6 (fst (write_cube digit_floats eight_values [] ''CPMD CUBE FILE.'')) =
     ['' 3.00000E+00   1.00000E+00   4.00000E+00   1.00000E+00   5.00000E+00   9.00000E+00 \<newline>'',
      '' 2.00000E+00   6.00000E+00 '']
   \<and> snd (write_cube digit_floats eight_values [] ''CPMD CUBE FILE.'') = None
   \<and> (length (grid_values eight_values) + 5) div 6 = 2
   \<and> length (sci_magnitude digit_floats 5 ''6'') \<le> 12
   \<and> length (value_field digit_floats ''6'') = 13"
  using write_cube_value_chunks[of digit_floats eight_values "[]" "''CPMD CUBE FILE.''"
        "fst (write_cube digit_floats eight_values [] ''CPMD CUBE FILE.'')"
        "''0''" "''0''" "''0''" 2 2 2 "''1''" "''0''" "''0''" "''0''" "''1''" "''0''" "''0''" "''0''" "''1''"]
  by (simp add: write_cube_eight_values value_field_digit) (simp add: eight_values_def digit_floats_def)

text \<open>
  Claim C8 as stated has each value right-justified with an explicit sign. The field
  that \<open>write_cube\<close> writes for the value 6 is \<^verbatim>\<open> 6.00000E+00 \<close>: the padding blank is the
  last character, and a blank stands where a sign would.
\<close>

theorem write_cube_value_left_justified:
  "last (fst (write_cube digit_floats eight_values [] ''CPMD CUBE FILE.'')) =
      '' 2.00000E+00   6.00000E+00 ''
   \<and> value_field digit_floats ''6'' = '' 6.00000E+00 ''
   \<and> value_field digit_floats ''6'' \<noteq> rjust 13 (''+'' @ sci_magnitude digit_floats 5 ''6'')
   \<and> value_field digit_floats ''6'' \<noteq> rjust 13 ('' '' @ sci_magnitude digit_floats 5 ''6'')"
  by (simp add: write_cube_eight_values value_field_digit) (simp add: rjust_def digit_floats_def eval_nat_numeral)


subsection \<open>print_biomolecule_atoms\<close>

lemma same_but_serial_refl: "same_but_serial h h"
  by (simp add: same_but_serial_def)

lemma same_but_serial_upd:
  "same_but_serial h h1 \<Longrightarrow> same_but_serial h (h1(a := (h1 a)\<lparr>serial := s\<rparr>))"
  by (simp add: same_but_serial_def)

lemma same_but_serial_chain:
  assumes "same_but_serial h h1"
  shows "chain_id (h1 a) = chain_id (h a)"
proof -
  have "(h1 a)\<lparr>serial := 0\<rparr> = (h a)\<lparr>serial := 0\<rparr>"
    using assms by (simp add: same_but_serial_def)
  then have "chain_id ((h1 a)\<lparr>serial := 0\<rparr>) = chain_id ((h a)\<lparr>serial := 0\<rparr>)" by simp
  then show ?thesis by simp
qed

lemma same_but_serial_set:
  assumes "same_but_serial h h1"
  shows "(h1 a)\<lparr>serial := s\<rparr> = (h a)\<lparr>serial := s\<rparr>"
proof -
  have "(h1 a)\<lparr>serial := 0\<rparr> = (h a)\<lparr>serial := 0\<rparr>"
    using assms by (simp add: same_but_serial_def)
  then have "((h1 a)\<lparr>serial := 0\<rparr>)\<lparr>serial := s\<rparr> = ((h a)\<lparr>serial := 0\<rparr>)\<lparr>serial := s\<rparr>"
    by simp
  then show ?thesis by simp
qed

lemma atom_step_eq:
  "atom_step r cf pf cif k a (acc, cur, h1) =
     (acc @ (if cur \<noteq> None \<and> cur \<noteq> Some (chain_id (h1 a)) then [''TER\<newline>''] else [])
          @ [atom_text r cf pf cif ((h1 a)\<lparr>serial := int k + 1\<rparr>)],
      Some (chain_id (h1 a)),
      h1(a := (h1 a)\<lparr>serial := int k + 1\<rparr>))"
  by (cases cur) (simp_all add: atom_step_def)

lemma atoms_loop_text:
  assumes "same_but_serial h h1"
  shows "fst (atoms_loop r cf pf cif k atoms (acc, cur, h1)) =
           acc @ body_from (atom_text r cf pf cif) h cur k atoms"
  using assms
proof (induction atoms arbitrary: k acc cur h1)
  case Nil
  then show ?case by simp
next
  case (Cons a rest)
  let ?h2 = "h1(a := (h1 a)\<lparr>serial := int k + 1\<rparr>)"
  let ?sep = "if cur \<noteq> None \<and> cur \<noteq> Some (chain_id (h1 a)) then [''TER\<newline>''] else []"
  let ?line = "atom_text r cf pf cif ((h1 a)\<lparr>serial := int k + 1\<rparr>)"
  have s2: "same_but_serial h ?h2" by (rule same_but_serial_upd[OF Cons.prems])
  have c: "chain_id (h1 a) = chain_id (h a)" by (rule same_but_serial_chain[OF Cons.prems])
  have u: "(h1 a)\<lparr>serial := int k + 1\<rparr> = (h a)\<lparr>serial := int k + 1\<rparr>"
    by (rule same_but_serial_set[OF Cons.prems])
  have "fst (atoms_loop r cf pf cif k (a # rest) (acc, cur, h1))
      = fst (atoms_loop r cf pf cif (Suc k) rest (acc @ ?sep @ [?line], Some (chain_id (h1 a)), ?h2))"
    by (simp only: atoms_loop.simps atom_step_eq)
  also have "\<dots> = (acc @ ?sep @ [?line])
       @ body_from (atom_text r cf pf cif) h (Some (chain_id (h1 a))) (Suc k) rest"
    by (rule Cons.IH[OF s2])
  also have "\<dots> = acc @ body_from (atom_text r cf pf cif) h cur k (a # rest)"
    unfolding c u by simp
  finally show ?case .
qed

lemma body_entry_Suc:
  "body_entry rnd h prev k (a # rest) (Suc i) =
   body_entry rnd h (Some (chain_id (h a))) (Suc k) rest i"
  by (cases i) (simp_all add: body_entry_def)

lemma body_from_index:
  "body_from rnd h prev k atoms = concat (map (body_entry rnd h prev k atoms) [0..<length atoms])"
proof (induction atoms arbitrary: prev k)
  case Nil
  then show ?case by simp
next
  case (Cons a rest)
  have shift: "[0..<length (a # rest)] = 0 # map Suc [0..<length rest]"
    by (simp add: upt_conv_Cons map_Suc_upt del: upt_Suc)
  have "concat (map (body_entry rnd h prev k (a # rest)) [0..<length (a # rest)])
      = body_entry rnd h prev k (a # rest) 0
        @ concat (map (\<lambda>i. body_entry rnd h prev k (a # rest) (Suc i)) [0..<length rest])"
    unfolding shift by (simp add: comp_def)
  also have "\<dots> = body_entry rnd h prev k (a # rest) 0
        @ concat (map (body_entry rnd h (Some (chain_id (h a))) (Suc k) rest) [0..<length rest])"
    by (simp only: body_entry_Suc)
  also have "\<dots> = body_entry rnd h prev k (a # rest) 0
        @ body_from rnd h (Some (chain_id (h a))) (Suc k) rest"
    by (simp only: Cons.IH)
  also have "\<dots> = body_from rnd h prev k (a # rest)"
    by (simp add: body_entry_def)
  finally show ?case by simp
qed

lemma atoms_loop_store:
  "\<exists>acc' cur' h'. atoms_loop r cf pf cif k atoms (acc, cur, h) = (acc', cur', h')
     \<and> (\<forall>a. a \<notin> set atoms \<longrightarrow> h' a = h a)
     \<and> (\<forall>i < length atoms. (\<forall>j < length atoms. i < j \<longrightarrow> atoms ! j \<noteq> atoms ! i) \<longrightarrow>
            h' (atoms ! i) = (h (atoms ! i))\<lparr>serial := int (k + i) + 1\<rparr>)"
proof (induction atoms arbitrary: k acc cur h)
  case Nil
  then show ?case by simp
next
  case (Cons a rest)
  obtain acc1 cur1 where st: "atom_step r cf pf cif k a (acc, cur, h)
      = (acc1, cur1, h(a := (h a)\<lparr>serial := int k + 1\<rparr>))"
    by (simp add: atom_step_eq)
  let ?h1 = "h(a := (h a)\<lparr>serial := int k + 1\<rparr>)"
  from Cons.IH[of "Suc k" acc1 cur1 ?h1] obtain acc' cur' h' where
    loop: "atoms_loop r cf pf cif (Suc k) rest (acc1, cur1, ?h1) = (acc', cur', h')"
    and frame: "\<forall>b. b \<notin> set rest \<longrightarrow> h' b = ?h1 b"
    and last: "\<forall>i < length rest. (\<forall>j < length rest. i < j \<longrightarrow> rest ! j \<noteq> rest ! i) \<longrightarrow>
            h' (rest ! i) = (?h1 (rest ! i))\<lparr>serial := int (Suc k + i) + 1\<rparr>"
    by blast
  have "atoms_loop r cf pf cif k (a # rest) (acc, cur, h) = (acc', cur', h')"
    by (simp add: st loop)
  moreover have "\<forall>b. b \<notin> set (a # rest) \<longrightarrow> h' b = h b"
    using frame by simp
  moreover have "\<forall>i < length (a # rest).
         (\<forall>j < length (a # rest). i < j \<longrightarrow> (a # rest) ! j \<noteq> (a # rest) ! i) \<longrightarrow>
            h' ((a # rest) ! i) = (h ((a # rest) ! i))\<lparr>serial := int (k + i) + 1\<rparr>"
  proof (intro allI impI)
    fix i assume i: "i < length (a # rest)"
      and lst: "\<forall>j < length (a # rest). i < j \<longrightarrow> (a # rest) ! j \<noteq> (a # rest) ! i"
    show "h' ((a # rest) ! i) = (h ((a # rest) ! i))\<lparr>serial := int (k + i) + 1\<rparr>"
    proof (cases i)
      case 0
      have "a \<notin> set rest"
      proof
        assume "a \<in> set rest"
        then obtain m where "m < length rest" "rest ! m = a" by (auto simp: in_set_conv_nth)
        with lst[rule_format, of "Suc m"] 0 show False by simp
      qed
      with frame 0 show ?thesis by simp
    next
      case (Suc m)
      then have m: "m < length rest" using i by simp
      have "\<forall>j < length rest. m < j \<longrightarrow> rest ! j \<noteq> rest ! m"
      proof (intro allI impI)
        fix j assume "j < length rest" "m < j"
        with lst[rule_format, of "Suc j"] Suc show "rest ! j \<noteq> rest ! m" by simp
      qed
      with last m have "h' (rest ! m) = (?h1 (rest ! m))\<lparr>serial := int (Suc k + m) + 1\<rparr>" by blast
      then show ?thesis using Suc by (cases "rest ! m = a") simp_all
    qed
  qed
  ultimately show ?case by blast
qed


lemma print_biomolecule_atoms_result:
  assumes "\<not> (pdbfile \<and> ciffile)"
  shows "\<exists>h'. print_biomolecule_atoms r h atomlist chainflag pdbfile ciffile =
           Inr (concat (map (body_entry (atom_text r chainflag pdbfile ciffile) h None 0 atomlist)
                            [0..<length atomlist])
                @ (if ciffile then [] else [''TER\<newline>END'']), h')
         \<and> (\<forall>a. a \<notin> set atomlist \<longrightarrow> h' a = h a)
         \<and> (\<forall>i < length atomlist.
               (\<forall>j < length atomlist. i < j \<longrightarrow> atomlist ! j \<noteq> atomlist ! i) \<longrightarrow>
               h' (atomlist ! i) = (h (atomlist ! i))\<lparr>serial := int i + 1\<rparr>)"
proof -
  from atoms_loop_store[of r chainflag pdbfile ciffile 0 atomlist "[]" None h]
  obtain acc' cur' h' where
    loop: "atoms_loop r chainflag pdbfile ciffile 0 atomlist ([], None, h) = (acc', cur', h')"
    and frame: "\<forall>a. a \<notin> set atomlist \<longrightarrow> h' a = h a"
    and last: "\<forall>i < length atomlist.
               (\<forall>j < length atomlist. i < j \<longrightarrow> atomlist ! j \<noteq> atomlist ! i) \<longrightarrow>
               h' (atomlist ! i) = (h (atomlist ! i))\<lparr>serial := int (0 + i) + 1\<rparr>"
    by blast
  have "acc' = fst (atoms_loop r chainflag pdbfile ciffile 0 atomlist ([], None, h))"
    by (simp add: loop)
  also have "\<dots> = [] @ body_from (atom_text r chainflag pdbfile ciffile) h None 0 atomlist"
    by (rule atoms_loop_text[OF same_but_serial_refl])
  finally have acc': "acc' = concat (map (body_entry (atom_text r chainflag pdbfile ciffile) h None 0 atomlist)
                            [0..<length atomlist])"
    by (simp add: body_from_index)
  have "print_biomolecule_atoms r h atomlist chainflag pdbfile ciffile =
           Inr (acc' @ (if ciffile then [] else [''TER\<newline>END'']), h')"
    using assms by (simp add: print_biomolecule_atoms_def loop)
  with acc' frame last show ?thesis by auto
qed

lemma atom_text_plain:
  "atom_text plain_renderers True False False a =
     ''ATOM '' @ py_str_int (serial a) @ '' '' @ atom_name a @ '' '' @ chain_id a @ ''\<newline>''"
  by (simp add: atom_text_def plain_renderers_def)

lemma str_small: "py_str_int 1 = ''1''" "py_str_int 2 = ''2''" "py_str_int 3 = ''3''"
  by code_simp+

text \<open>
  Claim C5. When the flags do not exclude each other, the call returns, and it has
  overwritten the serials in sequence order with 1, 2, 3, ...: an atom outside the list
  is untouched; the atom at position \<open>i\<close> (counted from 0) ends with the serial
  \<open>i + 1\<close> and all its other fields as before, whatever its serial was, provided the
  same object does not stand again later in the list (then the later assignment
  stands). So for a list of distinct atoms the serials after the call are the dense
  sequence from 1 to the length of the list.
\<close>

theorem print_biomolecule_atoms_serials:
  assumes "\<not> (pdbfile \<and> ciffile)"
  shows "\<exists>lines h'. print_biomolecule_atoms r h atomlist chainflag pdbfile ciffile = Inr (lines, h')
     \<and> (\<forall>a. a \<notin> set atomlist \<longrightarrow> h' a = h a)
     \<and> (\<forall>i < length atomlist.
           (\<forall>j < length atomlist. i < j \<longrightarrow> atomlist ! j \<noteq> atomlist ! i) \<longrightarrow>
           h' (atomlist ! i) = (h (atomlist ! i))\<lparr>serial := int i + 1\<rparr>)
     \<and> (distinct atomlist \<longrightarrow>
           map (\<lambda>a. serial (h' a)) atomlist = map int [1..<Suc (length atomlist)])"
proof -
  from print_biomolecule_atoms_result[OF assms, of r h atomlist chainflag]
  obtain lines h' where
    res: "print_biomolecule_atoms r h atomlist chainflag pdbfile ciffile = Inr (lines, h')"
    and frame: "\<forall>a. a \<notin> set atomlist \<longrightarrow> h' a = h a"
    and last: "\<forall>i < length atomlist.
               (\<forall>j < length atomlist. i < j \<longrightarrow> atomlist ! j \<noteq> atomlist ! i) \<longrightarrow>
               h' (atomlist ! i) = (h (atomlist ! i))\<lparr>serial := int i + 1\<rparr>"
    by blast
  have "map (\<lambda>a. serial (h' a)) atomlist = map int [1..<Suc (length atomlist)]" if d: "distinct atomlist"
  proof (rule nth_equalityI)
    show "length (map (\<lambda>a. serial (h' a)) atomlist) = length (map int [1..<Suc (length atomlist)])"
      by (simp del: upt_Suc)
  next
    fix i assume "i < length (map (\<lambda>a. serial (h' a)) atomlist)"
    then have i: "i < length atomlist" by simp
    have "\<forall>j < length atomlist. i < j \<longrightarrow> atomlist ! j \<noteq> atomlist ! i"
      using d i by (auto simp: nth_eq_iff_index_eq)
    with last i have "h' (atomlist ! i) = (h (atomlist ! i))\<lparr>serial := int i + 1\<rparr>" by blast
    then have "serial (h' (atomlist ! i)) = int i + 1" by simp
    moreover have "map int [1..<Suc (length atomlist)] ! i = int i + 1"
      using i by (simp add: nth_upt del: upt_Suc)
    ultimately show "map (\<lambda>a. serial (h' a)) atomlist ! i = map int [1..<Suc (length atomlist)] ! i"
      using i by simp
  qed
  with res frame last show ?thesis by blast
qed

text \<open>The theorem on three atoms that carried the serials 7, 7 and 3.\<close>

theorem print_biomolecule_atoms_serials_witness:
  "\<exists>lines h'. print_biomolecule_atoms plain_renderers three_atoms [0, 1, 2] True False False = Inr (lines, h')
     \<and> map (\<lambda>a. serial (three_atoms a)) [0, 1, 2] = [7, 7, 3]
     \<and> map (\<lambda>a. serial (h' a)) [0, 1, 2] = [1, 2, 3]"
proof -
  have "\<not> (False \<and> False)" by simp
  from print_biomolecule_atoms_serials[OF this, of plain_renderers three_atoms "[0, 1, 2]" True]
  show ?thesis
    by (auto simp add: upt_rec three_atoms_def atom_N_def)
qed

text \<open>
  An object that stands twice in the list is rendered twice, with the serials 1 and 2,
  and keeps the serial 2.
\<close>

lemma print_biomolecule_atoms_same_atom_twice:
  "\<exists>lines h'. print_biomolecule_atoms plain_renderers three_atoms [0, 0] True False False = Inr (lines, h')
     \<and> lines = [''ATOM 1 N A\<newline>'', ''ATOM 2 N A\<newline>'', ''TER\<newline>END'']
     \<and> serial (h' 0) = 2"
  by (simp add: print_biomolecule_atoms_def atom_step_eq atom_text_plain three_atoms_def atom_N_def str_small)


text \<open>
  Claim C6. When the flags do not exclude each other, the returned list is, for each
  atom in order, the line \<^verbatim>\<open>TER\<close> if the atom is not the first and its chain identifier
  differs from that of the atom before it, then the line of the atom (rendered with
  its new serial); and after the last atom, unless \<^verbatim>\<open>ciffile\<close> is set, one more entry
  holding the line \<^verbatim>\<open>TER\<close> and the end marker \<^verbatim>\<open>END\<close>. Nothing else is in the list.
\<close>

theorem print_biomolecule_atoms_chain_terminators:
  assumes "\<not> (pdbfile \<and> ciffile)"
  shows "\<exists>h'. print_biomolecule_atoms r h atomlist chainflag pdbfile ciffile =
     Inr (concat (map (\<lambda>i. (if 0 < i \<and> chain_id (h (atomlist ! i)) \<noteq> chain_id (h (atomlist ! (i - 1)))
                             then [''TER\<newline>''] else [])
                            @ [atom_text r chainflag pdbfile ciffile
                                 ((h (atomlist ! i))\<lparr>serial := int i + 1\<rparr>)])
                      [0..<length atomlist])
          @ (if ciffile then [] else [''TER\<newline>END'']), h')"
proof -
  have "body_entry (atom_text r chainflag pdbfile ciffile) h None 0 atomlist
      = (\<lambda>i. (if 0 < i \<and> chain_id (h (atomlist ! i)) \<noteq> chain_id (h (atomlist ! (i - 1)))
               then [''TER\<newline>''] else [])
              @ [atom_text r chainflag pdbfile ciffile ((h (atomlist ! i))\<lparr>serial := int i + 1\<rparr>)])"
    by (rule ext) (simp add: body_entry_def)
  with print_biomolecule_atoms_result[OF assms, of r h atomlist chainflag]
  show ?thesis by auto
qed

text \<open>The theorem on atoms of the chains A, A and B, in the PQR dialect.\<close>

theorem print_biomolecule_atoms_chain_terminators_witness:
  "\<exists>h'. print_biomolecule_atoms plain_renderers three_atoms [0, 1, 2] True False False =
     Inr ([''ATOM 1 N A\<newline>'', ''ATOM 2 CA A\<newline>'', ''TER\<newline>'', ''ATOM 3 O B\<newline>'', ''TER\<newline>END''], h')"
proof -
  have "\<not> (False \<and> False)" by simp
  from print_biomolecule_atoms_chain_terminators[OF this, of plain_renderers three_atoms "[0, 1, 2]" True]
  show ?thesis
    by (simp add: upt_rec atom_text_plain three_atoms_def atom_N_def str_small)
qed


subsection \<open>test_for_file\<close>

lemma ascii_parse: "ascii_upper ''parse'' = ''PARSE''" "ascii_lower ''parse'' = ''parse''"
  by code_simp+

lemma ascii_dat: "ascii_upper ''DAT'' = ''DAT''" "ascii_lower ''DAT'' = ''dat''"
  by code_simp+

lemma test_dirs_no_files:
  "test_dirs no_files = Inr [''/usr/lib/python3/pdb2pqr/dat'', ''/home/user/pdb2pqr/dat'']"
  by (simp add: test_dirs_def no_files_def bind_res_def)

lemma test_for_file_no_files:
  "test_for_file no_files (Some ''parse'') (Some ''DAT'') =
     Inl (FileNotFoundError ''Unable to find DAT file for PARSE'')"
  by (simp add: test_for_file_def test_dirs_no_files bind_res_def)
     (simp add: no_files_def test_paths_def test_names_def test_suffixes_def ascii_parse)

lemma test_paths_not_files:
  "find (is_file env) (test_paths env dirs nm ty) = None \<Longrightarrow>
   \<forall>test_dir \<in> set dirs. \<forall>test_name \<in> set (test_names env nm).
     \<forall>test_suffix \<in> set (test_suffixes env ty).
       \<not> is_file env (path_div env test_dir (test_name @ test_suffix))"
proof -
  assume "find (is_file env) (test_paths env dirs nm ty) = None"
  then have "\<forall>p \<in> set (test_paths env dirs nm ty). \<not> is_file env p"
    by (simp add: find_None_iff)
  then show ?thesis
    unfolding test_paths_def by auto
qed

text \<open>
  Claim C9, as the code has it. With \<^verbatim>\<open>name\<close> equal to \<^verbatim>\<open>None\<close> the call returns the
  empty string, not a path and not an error, whatever \<^verbatim>\<open>type_\<close> is. If the call raises
  \<^verbatim>\<open>FileNotFoundError\<close>, then \<^verbatim>\<open>name\<close> and \<^verbatim>\<open>type_\<close> are not \<^verbatim>\<open>None\<close>, and either the
  error is the one of \<^verbatim>\<open>Path.cwd()\<close> (no path has been tested), or the directories
  were built and none of the paths built from a directory, a name and a suffix is a
  file; in that case the error is the one of line 382.
\<close>

theorem test_for_file_none:
  "test_for_file env None ftype = Inr (Str '''')
   \<and> (test_for_file env name ftype = Inl (FileNotFoundError err) \<longrightarrow>
        (\<exists>nm ty. name = Some nm \<and> ftype = Some ty
           \<and> (cwd env = Inl (FileNotFoundError err)
              \<or> (\<exists>dirs. test_dirs env = Inr dirs
                   \<and> err = ''Unable to find '' @ ty @ '' file for ''
                            @ (if str_lower env nm \<in> set (FORCE_FIELDS env)
                               then str_upper env nm else nm)
                   \<and> (\<forall>test_dir \<in> set dirs. \<forall>test_name \<in> set (test_names env nm).
                        \<forall>test_suffix \<in> set (test_suffixes env ty).
                          \<not> is_file env (path_div env test_dir (test_name @ test_suffix)))))))"
proof (intro conjI impI)
  show "test_for_file env None ftype = Inr (Str '''')"
    by (simp add: test_for_file_def)
next
  assume e: "test_for_file env name ftype = Inl (FileNotFoundError err)"
  then obtain nm where nm: "name = Some nm"
    by (cases name) (simp_all add: test_for_file_def)
  with e obtain ty where ty: "ftype = Some ty"
    by (cases ftype) (simp_all add: test_for_file_def)
  let ?msg = "''Unable to find '' @ ty @ '' file for ''
      @ (if str_lower env nm \<in> set (FORCE_FIELDS env) then str_upper env nm else nm)"
  have "cwd env = Inl (FileNotFoundError err)
        \<or> (\<exists>dirs. test_dirs env = Inr dirs \<and> err = ?msg
             \<and> (\<forall>test_dir \<in> set dirs. \<forall>test_name \<in> set (test_names env nm).
                  \<forall>test_suffix \<in> set (test_suffixes env ty).
                    \<not> is_file env (path_div env test_dir (test_name @ test_suffix))))"
  proof (cases "cwd env")
    case (Inl x)
    with e nm ty show ?thesis
      by (simp add: test_for_file_def test_dirs_def bind_res_def)
  next
    case (Inr working_dir)
    then obtain dirs where d: "test_dirs env = Inr dirs"
      by (simp add: test_dirs_def bind_res_def)
    with e nm ty have f: "find (is_file env) (test_paths env dirs nm ty) = None"
      and m: "err = ?msg"
      by (auto simp add: test_for_file_def bind_res_def split: option.splits)
    from test_paths_not_files[OF f] d m show ?thesis by blast
  qed
  with nm ty show "\<exists>nm ty. name = Some nm \<and> ftype = Some ty
           \<and> (cwd env = Inl (FileNotFoundError err)
              \<or> (\<exists>dirs. test_dirs env = Inr dirs
                   \<and> err = ''Unable to find '' @ ty @ '' file for ''
                            @ (if str_lower env nm \<in> set (FORCE_FIELDS env)
                               then str_upper env nm else nm)
                   \<and> (\<forall>test_dir \<in> set dirs. \<forall>test_name \<in> set (test_names env nm).
                        \<forall>test_suffix \<in> set (test_suffixes env ty).
                          \<not> is_file env (path_div env test_dir (test_name @ test_suffix)))))"
    by blast
qed

text \<open>
  The theorem in a file system without files, for the force field \<^verbatim>\<open>parse\<close>: the
  working directory exists, the six directories and names are tested, and the error is
  the one of line 382.
\<close>

theorem test_for_file_none_witness:
  "test_for_file no_files None (Some ''DAT'') = Inr (Str '''')
   \<and> test_for_file no_files None None = Inr (Str '''')
   \<and> test_for_file no_files (Some ''parse'') (Some ''DAT'') =
        Inl (FileNotFoundError ''Unable to find DAT file for PARSE'')
   \<and> cwd no_files = Inr ''/home/user''
   \<and> test_dirs no_files = Inr [''/usr/lib/python3/pdb2pqr/dat'', ''/home/user/pdb2pqr/dat'']
   \<and> list_all (\<lambda>p. \<not> is_file no_files p)
        (test_paths no_files [''/usr/lib/python3/pdb2pqr/dat'', ''/home/user/pdb2pqr/dat'']
           ''parse'' ''DAT'')"
  using test_for_file_none[of no_files "Some ''DAT''" "Some ''parse''" "''Unable to find DAT file for PARSE''"]
    test_for_file_none[of no_files None]
  by (simp add: test_for_file_no_files test_dirs_no_files) (simp add: no_files_def list_all_iff)

text \<open>
  Claim C9 as stated has \<^verbatim>\<open>FileNotFoundError\<close> raised only after every permutation of
  directory, name and suffix has been tested. When the working directory of the process
  has been removed, \<^verbatim>\<open>Path.cwd()\<close> at line 369 raises it before any path is tested: the
  call fails although one of the paths under the directory of \<^verbatim>\<open>sys.path\<close>, which the
  loops would have tested, is a file.
\<close>

theorem test_for_file_cwd_removed:
  "test_for_file cwd_removed (Some ''parse'') (Some ''DAT'') =
     Inl (FileNotFoundError ''[Errno 2] No such file or directory'')
   \<and> find (is_file cwd_removed)
        (test_paths cwd_removed
           (map (\<lambda>p. joinpath cwd_removed (path_of cwd_removed p) [''pdb2pqr'', ''dat''])
                (sys_path cwd_removed))
           ''parse'' ''DAT'')
      = Some ''/usr/lib/python3/pdb2pqr/dat/PARSE.DAT''"
  by (simp add: test_for_file_def test_dirs_def bind_res_def)
     (simp add: cwd_removed_def test_paths_def test_names_def test_suffixes_def ascii_parse
        ascii_dat)


subsection \<open>get_pdb_file\<close>

lemma requests_not_bound: "''requests'' \<notin> set module_globals"
  by (simp add: module_globals_def module_imports_def module_definitions_def)

lemma get_pdb_file_not_a_file:
  "\<not> fetch_is_file env (fetch_path_of env name) \<Longrightarrow>
   get_pdb_file env name = (Inl (NameError ''requests''), [])"
  by (simp add: get_pdb_file_def get_pdb_file_in_def requests_not_bound Let_def)

lemma get_pdb_file_in_with_requests:
  assumes "''requests'' \<in> set globals"
    and "\<not> fetch_is_file env (fetch_path_of env name)"
    and "requests_get env (''https://files.rcsb.org/download/''
            @ fetch_stem env (fetch_path_of env name) @ ''.pdb'') = (status_code, body)"
  shows "get_pdb_file_in globals env name =
     (if status_code \<noteq> 200
      then Inl (IOError (''Got code '' @ py_str_int status_code @ '' while retrieving ''
             @ ''https://files.rcsb.org/download/'' @ fetch_stem env (fetch_path_of env name) @ ''.pdb''))
      else Inr body,
      [''https://files.rcsb.org/download/'' @ fetch_stem env (fetch_path_of env name) @ ''.pdb''])"
  using assms by (simp add: get_pdb_file_in_def Let_def)

text \<open>
  Claim C3 does not hold of the module as it is. For a name that is no file, here
  \<^verbatim>\<open>1abc\<close>, the call raises \<^verbatim>\<open>NameError\<close> at \<^verbatim>\<open>requests.get\<close>, because the module
  never imports \<^verbatim>\<open>requests\<close>, and no request is made. In a namespace that binds
  \<^verbatim>\<open>requests\<close> the same body makes one request and raises \<^verbatim>\<open>IOError\<close> with the URL in
  its message.
\<close>

theorem get_pdb_file_name_error:
  "get_pdb_file offline ''1abc'' = (Inl (NameError ''requests''), [])
   \<and> get_pdb_file_in (''requests'' # module_globals) offline ''1abc'' =
        (Inl (IOError ''Got code 404 while retrieving https://files.rcsb.org/download/1abc.pdb''),
         [''https://files.rcsb.org/download/1abc.pdb''])"
proof -
  have s: "py_str_int 404 = ''404''" by code_simp
  show ?thesis
    by (simp add: get_pdb_file_def get_pdb_file_in_def requests_not_bound offline_def s Let_def)
qed


subsection \<open>print_pqr_header\<close>

text \<open>
  Whatever the arguments, a header that is returned starts with the banner section
  twice.
\<close>

lemma print_pqr_header_doubles:
  "print_pqr_header TITLE_STR upper ops pdblist atomlist reslist charge force_field
       ph_calc_method ph ffout include_old_header = Inr out \<Longrightarrow>
   \<exists>rest. out =
      banner_section TITLE_STR (case force_field of None \<Rightarrow> ''User force field'' | Some f \<Rightarrow> upper f) ffout
      @ banner_section TITLE_STR (case force_field of None \<Rightarrow> ''User force field'' | Some f \<Rightarrow> upper f) ffout
      @ ''REMARK   1\<newline>'' @ rest"
  by (auto simp: print_pqr_header_def Let_def bind_res_def split: option.splits if_splits)

lemma occurrences_parse_header:
  "occurrences ''REMARK   1 PQR file generated by PDB2PQR'' parse_header = 2"
  "occurrences ''REMARK   1 Forcefield Used: PARSE'' parse_header = 2"
  by code_simp+

text \<open>
  Claim C1 does not hold of the function as it is. For the force field \<^verbatim>\<open>parse\<close>, no
  naming scheme, no pKa method, empty lists and the total charge 0, the returned header
  is \<open>parse_header\<close>: the banner line and the force field line stand in it twice.
\<close>

theorem print_pqr_header_banner_twice:
  "print_pqr_header ''PDB2PQR'' ascii_upper digit_floats [] [] [] ''0'' (Some ''parse'')
       None None None False = Inr parse_header
   \<and> occurrences ''REMARK   1 PQR file generated by PDB2PQR'' parse_header = 2
   \<and> occurrences ''REMARK   1 Forcefield Used: PARSE'' parse_header = 2"
proof -
  have f: "fixed digit_floats 4 ''0'' = ''0.0000''"
    by (simp add: digit_floats_def eval_nat_numeral)
  have "print_pqr_header ''PDB2PQR'' ascii_upper digit_floats [] [] [] ''0'' (Some ''parse'')
       None None None False = Inr parse_header"
    by (simp add: print_pqr_header_def banner_section_def omitted_atoms_section_def
        charged_residues_section_def bind_res_def Let_def ascii_parse f parse_header_def)
  then show ?thesis by (simp add: occurrences_parse_header)
qed


end
